theory Spec2Isabelle
  imports Complex_Main "HOL-Library.AList" "HOL-Library.Sublist" "HOL-Library.Multiset"
begin

section \<open>Numbers\<close>

text \<open>
  A JavaScript number is an IEEE 754 binary64 value: a finite number, an infinity or NaN.
  A finite number is represented by its real value; the sign of a zero is not represented
  (the one division of the program is never a division by zero, and nothing else in it
  depends on the sign of a zero). The arithmetic
  operations compute the exact real result and round it to the nearest representable number,
  ties to the even significand, with gradual underflow and overflow to infinity.
  \<open>Math.sqrt\<close> is the correctly rounded square root.
\<close>

datatype double = Number real | PlusInfinity | MinusInfinity | NaN

definition round_half_even :: "real \<Rightarrow> int" where
  "round_half_even z =
     (let f = \<lfloor>z\<rfloor>
      in if z - of_int f < 1 / 2 then f
         else if z - of_int f > 1 / 2 then f + 1
         else if even f then f else f + 1)"

text \<open>
  The exponent of the binade of \<open>x\<close>, not below that of the subnormal numbers, and the
  distance of two neighbouring representable numbers there.
\<close>

definition binade :: "real \<Rightarrow> int" where
  "binade x = max \<lfloor>log 2 \<bar>x\<bar>\<rfloor> (- 1022)"

definition ulp :: "real \<Rightarrow> real" where
  "ulp x = 2 powr of_int (binade x - 52)"

definition fl :: "real \<Rightarrow> double" where
  "fl x =
     (if x = 0 then Number 0
      else (let y = of_int (round_half_even (x / ulp x)) * ulp x
            in if \<bar>y\<bar> \<ge> 2 powr 1024
               then (if x > 0 then PlusInfinity else MinusInfinity)
               else Number y))"

definition signed_infinity :: "bool \<Rightarrow> double" where
  "signed_infinity positive = (if positive then PlusInfinity else MinusInfinity)"

fun dneg :: "double \<Rightarrow> double" where
  "dneg (Number x) = Number (- x)"
| "dneg PlusInfinity = MinusInfinity"
| "dneg MinusInfinity = PlusInfinity"
| "dneg NaN = NaN"

fun dadd :: "double \<Rightarrow> double \<Rightarrow> double" where
  "dadd NaN y = NaN"
| "dadd x NaN = NaN"
| "dadd PlusInfinity MinusInfinity = NaN"
| "dadd MinusInfinity PlusInfinity = NaN"
| "dadd PlusInfinity y = PlusInfinity"
| "dadd x PlusInfinity = PlusInfinity"
| "dadd MinusInfinity y = MinusInfinity"
| "dadd x MinusInfinity = MinusInfinity"
| "dadd (Number x) (Number y) = fl (x + y)"

definition dsub :: "double \<Rightarrow> double \<Rightarrow> double" where
  "dsub x y = dadd x (dneg y)"

fun dmul :: "double \<Rightarrow> double \<Rightarrow> double" where
  "dmul NaN y = NaN"
| "dmul x NaN = NaN"
| "dmul (Number x) (Number y) = fl (x * y)"
| "dmul (Number x) PlusInfinity = (if x = 0 then NaN else signed_infinity (0 < x))"
| "dmul (Number x) MinusInfinity = (if x = 0 then NaN else signed_infinity (x < 0))"
| "dmul PlusInfinity (Number y) = (if y = 0 then NaN else signed_infinity (0 < y))"
| "dmul MinusInfinity (Number y) = (if y = 0 then NaN else signed_infinity (y < 0))"
| "dmul PlusInfinity PlusInfinity = PlusInfinity"
| "dmul PlusInfinity MinusInfinity = MinusInfinity"
| "dmul MinusInfinity PlusInfinity = MinusInfinity"
| "dmul MinusInfinity MinusInfinity = PlusInfinity"

fun ddiv :: "double \<Rightarrow> double \<Rightarrow> double" where
  "ddiv NaN y = NaN"
| "ddiv x NaN = NaN"
| "ddiv (Number x) (Number y) =
     (if y = 0 then (if x = 0 then NaN else signed_infinity (0 < x)) else fl (x / y))"
| "ddiv (Number x) PlusInfinity = Number 0"
| "ddiv (Number x) MinusInfinity = Number 0"
| "ddiv PlusInfinity (Number y) = signed_infinity (0 \<le> y)"
| "ddiv MinusInfinity (Number y) = signed_infinity (y < 0)"
| "ddiv PlusInfinity PlusInfinity = NaN"
| "ddiv PlusInfinity MinusInfinity = NaN"
| "ddiv MinusInfinity PlusInfinity = NaN"
| "ddiv MinusInfinity MinusInfinity = NaN"

fun dsqrt :: "double \<Rightarrow> double" where
  "dsqrt (Number x) = (if x < 0 then NaN else fl (sqrt x))"
| "dsqrt PlusInfinity = PlusInfinity"
| "dsqrt MinusInfinity = NaN"
| "dsqrt NaN = NaN"

text \<open>The comparisons \<open><\<close> and \<open>>=\<close> of numbers: false whenever an operand is NaN.\<close>

fun dless :: "double \<Rightarrow> double \<Rightarrow> bool" where
  "dless NaN y = False"
| "dless x NaN = False"
| "dless (Number x) (Number y) = (x < y)"
| "dless (Number x) PlusInfinity = True"
| "dless (Number x) MinusInfinity = False"
| "dless PlusInfinity y = False"
| "dless MinusInfinity MinusInfinity = False"
| "dless MinusInfinity y = True"

definition dge :: "double \<Rightarrow> double \<Rightarrow> bool" where
  "dge x y = (x \<noteq> NaN \<and> y \<noteq> NaN \<and> \<not> dless x y)"

subsection \<open>Array.prototype.sort\<close>

text \<open>
  \<open>sort\<close> reads the sign of what the comparator returns, with NaN counting as 0. It is a
  function of the engine and an argument \<open>array_sort\<close> of the model. ECMAScript fixes its
  result when the comparator is consistent on the elements of the array: the array is
  rearranged so that no element stands before one it compares greater than, and elements
  that compare equal keep their order; \<open>conforming\<close> is this contract. For any other
  comparator ECMAScript leaves the result to the engine; \<open>rearranging\<close> says that the
  engine returns a rearrangement of the array whatever the comparator. The stable insertion
  sort is one function that has both properties.
\<close>

definition sort_sign :: "double \<Rightarrow> int" where
  "sort_sign v =
     (case v of
        Number x \<Rightarrow> (if x < 0 then - 1 else if 0 < x then 1 else 0)
      | PlusInfinity \<Rightarrow> 1
      | MinusInfinity \<Rightarrow> - 1
      | NaN \<Rightarrow> 0)"

type_synonym 'a comparator = "'a \<Rightarrow> 'a \<Rightarrow> double"

type_synonym 'a sorter = "'a comparator \<Rightarrow> 'a list \<Rightarrow> 'a list"

definition consistent :: "'a comparator \<Rightarrow> 'a set \<Rightarrow> bool" where
  "consistent cmp S =
     ((\<forall>a\<in>S. sort_sign (cmp a a) = 0) \<and>
      (\<forall>a\<in>S. \<forall>b\<in>S. sort_sign (cmp a b) = 0 \<longrightarrow> sort_sign (cmp b a) = 0) \<and>
      (\<forall>a\<in>S. \<forall>b\<in>S. \<forall>c\<in>S.
         sort_sign (cmp a b) = 0 \<and> sort_sign (cmp b c) = 0 \<longrightarrow> sort_sign (cmp a c) = 0) \<and>
      (\<forall>a\<in>S. \<forall>b\<in>S. (sort_sign (cmp a b) < 0) = (0 < sort_sign (cmp b a))) \<and>
      (\<forall>a\<in>S. \<forall>b\<in>S. \<forall>c\<in>S.
         sort_sign (cmp a b) < 0 \<and> sort_sign (cmp b c) < 0 \<longrightarrow> sort_sign (cmp a c) < 0))"


definition rearranging :: "'a sorter \<Rightarrow> bool" where
  "rearranging array_sort = (\<forall>cmp xs. mset (array_sort cmp xs) = mset xs)"

fun insert_sorted :: "'a comparator \<Rightarrow> 'a \<Rightarrow> 'a list \<Rightarrow> 'a list" where
  "insert_sorted cmp x [] = [x]"
| "insert_sorted cmp x (y # ys) =
     (if 0 < sort_sign (cmp x y) then y # insert_sorted cmp x ys else x # y # ys)"

definition insertion_sort :: "'a sorter" where
  "insertion_sort cmp xs = foldr (insert_sorted cmp) xs []"

section \<open>Data model (shared/schema.ts)\<close>

text \<open>
  Identifiers, counters, sizes, progress values and timestamps are integers in every run of
  the program and are modelled as \<open>int\<close>; embedding components and similarity scores are
  \<open>double\<close>. A nullable column is an \<open>option\<close>; \<open>jsonb\<close> metadata is kept as its JSON
  text.
\<close>

type_synonym json = string

record document =
  d_id :: int
  d_name :: string
  d_originalName :: string
  d_mimeType :: string
  d_size :: int
  d_content :: string
  d_chunkCount :: int
  d_status :: string
  d_progress :: int
  d_userId :: "string option"
  d_uploadedAt :: "int option"

record insert_document =
  i_name :: string
  i_originalName :: string
  i_mimeType :: string
  i_size :: int
  i_content :: string
  i_chunkCount :: "int option"
  i_status :: "string option"
  i_progress :: "int option"
  i_userId :: "string option"

text \<open>\<open>Partial<Document>\<close>: every field may be present (\<open>Some\<close>) or absent.\<close>

record document_updates =
  u_id :: "int option"
  u_name :: "string option"
  u_originalName :: "string option"
  u_mimeType :: "string option"
  u_size :: "int option"
  u_content :: "string option"
  u_chunkCount :: "int option"
  u_status :: "string option"
  u_progress :: "int option"
  u_userId :: "string option option"
  u_uploadedAt :: "int option option"

record chunk =
  c_id :: int
  c_documentId :: int
  c_content :: string
  c_embedding :: "double list"
  c_metadata :: "json option"
  c_createdAt :: "int option"

record insert_chunk =
  ic_documentId :: int
  ic_content :: string
  ic_embedding :: "double list option"
  ic_metadata :: "json option"

record source =
  src_documentId :: int
  src_content :: string
  src_similarity :: double
  src_metadata :: "json option"

record chat_message =
  m_id :: int
  m_content :: string
  m_role :: string
  m_sources :: "source list option"
  m_userId :: "string option"
  m_createdAt :: "int option"

record insert_chat_message =
  im_content :: string
  im_role :: string
  im_sources :: "source list option"
  im_userId :: "string option"

section \<open>MemStorage (server/storage.ts)\<close>

text \<open>
  A JavaScript \<open>Map\<close> iterates in insertion order; \<open>set\<close> on an existing key keeps the
  key's position, \<open>delete\<close> removes the entry. It is modelled as an association list with
  \<open>AList.update\<close> (replace in place, else append), \<open>AList.delete\<close> and \<open>map_of\<close>.
  \<open>new Date()\<close> is the argument \<open>now\<close> of the operations that read the clock.
\<close>

record store =
  documents :: "(int \<times> document) list"
  chunks :: "(int \<times> chunk) list"
  chatMessages :: "(int \<times> chat_message) list"
  currentDocumentId :: int
  currentChunkId :: int
  currentMessageId :: int

definition constructor :: store where
  "constructor = \<lparr>documents = [], chunks = [], chatMessages = [],
     currentDocumentId = 1, currentChunkId = 1, currentMessageId = 1\<rparr>"

text \<open>\<open>a ?? b\<close>: the default applies to \<open>null\<close> and \<open>undefined\<close> only.\<close>

definition nullish :: "'a option \<Rightarrow> 'a \<Rightarrow> 'a" where
  "nullish a b = (case a of None \<Rightarrow> b | Some v \<Rightarrow> v)"

text \<open>\<open>if (s)\<close> on an optional string: \<open>undefined\<close> and the empty string are falsy.\<close>

definition truthy :: "string option \<Rightarrow> bool" where
  "truthy s = (case s of None \<Rightarrow> False | Some v \<Rightarrow> v \<noteq> [])"

text \<open>\<open>new Date(t).getTime()\<close>; \<open>new Date(null)\<close> is the epoch.\<close>

definition getTime :: "int option \<Rightarrow> int" where
  "getTime t = (case t of None \<Rightarrow> 0 | Some v \<Rightarrow> v)"

definition createDocument :: "insert_document \<Rightarrow> int \<Rightarrow> store \<Rightarrow> document \<times> store" where
  "createDocument insertDocument now s =
     (let i = currentDocumentId s;
          doc = \<lparr>d_id = i,
                 d_name = i_name insertDocument,
                 d_originalName = i_originalName insertDocument,
                 d_mimeType = i_mimeType insertDocument,
                 d_size = i_size insertDocument,
                 d_content = i_content insertDocument,
                 d_chunkCount = nullish (i_chunkCount insertDocument) 0,
                 d_status = nullish (i_status insertDocument) ''processing'',
                 d_progress = nullish (i_progress insertDocument) 0,
                 d_userId = i_userId insertDocument,
                 d_uploadedAt = Some now\<rparr>
      in (doc, s\<lparr>currentDocumentId := i + 1,
                 documents := AList.update i doc (documents s)\<rparr>))"

definition getDocument :: "int \<Rightarrow> store \<Rightarrow> document option" where
  "getDocument i s = map_of (documents s) i"

definition getAllDocuments :: "string option \<Rightarrow> store \<Rightarrow> document list" where
  "getAllDocuments userId s =
     (let docs = map snd (documents s);
          docs = (if truthy userId then filter (\<lambda>doc. d_userId doc = userId) docs else docs)
      in sort_key (\<lambda>doc. - getTime (d_uploadedAt doc)) docs)"

definition getUserDocuments :: "string \<Rightarrow> store \<Rightarrow> document list" where
  "getUserDocuments userId s = getAllDocuments (Some userId) s"

text \<open>\<open>{ ...document, ...updates }\<close>: a field present in \<open>updates\<close> replaces the document's.\<close>

definition spread :: "document \<Rightarrow> document_updates \<Rightarrow> document" where
  "spread doc u =
     \<lparr>d_id = nullish (u_id u) (d_id doc),
      d_name = nullish (u_name u) (d_name doc),
      d_originalName = nullish (u_originalName u) (d_originalName doc),
      d_mimeType = nullish (u_mimeType u) (d_mimeType doc),
      d_size = nullish (u_size u) (d_size doc),
      d_content = nullish (u_content u) (d_content doc),
      d_chunkCount = nullish (u_chunkCount u) (d_chunkCount doc),
      d_status = nullish (u_status u) (d_status doc),
      d_progress = nullish (u_progress u) (d_progress doc),
      d_userId = nullish (u_userId u) (d_userId doc),
      d_uploadedAt = nullish (u_uploadedAt u) (d_uploadedAt doc)\<rparr>"

definition no_updates :: document_updates where
  "no_updates = \<lparr>u_id = None, u_name = None, u_originalName = None, u_mimeType = None,
     u_size = None, u_content = None, u_chunkCount = None, u_status = None,
     u_progress = None, u_userId = None, u_uploadedAt = None\<rparr>"

definition updateDocumentProgress ::
  "int \<Rightarrow> int \<Rightarrow> string option \<Rightarrow> store \<Rightarrow> document option \<times> store" where
  "updateDocumentProgress i progress status s =
     (case map_of (documents s) i of
        None \<Rightarrow> (None, s)
      | Some doc \<Rightarrow>
          (let updates = no_updates\<lparr>u_progress := Some progress\<rparr>;
               updates = (if truthy status then updates\<lparr>u_status := status\<rparr> else updates);
               updated = spread doc updates
           in (Some updated, s\<lparr>documents := AList.update i updated (documents s)\<rparr>)))"

definition updateDocument ::
  "int \<Rightarrow> document_updates \<Rightarrow> store \<Rightarrow> document option \<times> store" where
  "updateDocument i updates s =
     (case map_of (documents s) i of
        None \<Rightarrow> (None, s)
      | Some doc \<Rightarrow>
          (let updated = spread doc updates
           in (Some updated, s\<lparr>documents := AList.update i updated (documents s)\<rparr>)))"

definition createChunk :: "insert_chunk \<Rightarrow> int \<Rightarrow> store \<Rightarrow> chunk \<times> store" where
  "createChunk insertChunk now s =
     (let i = currentChunkId s;
          ch = \<lparr>c_id = i,
                c_documentId = ic_documentId insertChunk,
                c_content = ic_content insertChunk,
                c_embedding = nullish (ic_embedding insertChunk) [],
                c_metadata = ic_metadata insertChunk,
                c_createdAt = Some now\<rparr>
      in (ch, s\<lparr>currentChunkId := i + 1, chunks := AList.update i ch (chunks s)\<rparr>))"

definition getChunksByDocument :: "int \<Rightarrow> store \<Rightarrow> chunk list" where
  "getChunksByDocument documentId s =
     filter (\<lambda>ch. c_documentId ch = documentId) (map snd (chunks s))"

definition getAllChunks :: "store \<Rightarrow> chunk list" where
  "getAllChunks s = map snd (chunks s)"

definition deleteChunksByDocument :: "int \<Rightarrow> store \<Rightarrow> bool \<times> store" where
  "deleteChunksByDocument documentId s =
     (let chunkIds = map c_id (filter (\<lambda>ch. c_documentId ch = documentId) (map snd (chunks s)))
      in (length chunkIds > 0, s\<lparr>chunks := fold AList.delete chunkIds (chunks s)\<rparr>))"

definition deleteDocument :: "int \<Rightarrow> store \<Rightarrow> bool \<times> store" where
  "deleteDocument i s =
     (let deleted = (map_of (documents s) i \<noteq> None);
          s1 = s\<lparr>documents := AList.delete i (documents s)\<rparr>;
          s2 = (if deleted then snd (deleteChunksByDocument i s1) else s1)
      in (deleted, s2))"

definition createChatMessage ::
  "insert_chat_message \<Rightarrow> int \<Rightarrow> store \<Rightarrow> chat_message \<times> store" where
  "createChatMessage insertMessage now s =
     (let i = currentMessageId s;
          msg = \<lparr>m_id = i,
                 m_content = im_content insertMessage,
                 m_role = im_role insertMessage,
                 m_sources = im_sources insertMessage,
                 m_userId = im_userId insertMessage,
                 m_createdAt = Some now\<rparr>
      in (msg, s\<lparr>currentMessageId := i + 1,
                 chatMessages := AList.update i msg (chatMessages s)\<rparr>))"

definition getAllChatMessages :: "string option \<Rightarrow> store \<Rightarrow> chat_message list" where
  "getAllChatMessages userId s =
     (let messages = map snd (chatMessages s);
          messages = (if truthy userId then filter (\<lambda>msg. m_userId msg = userId) messages
                      else messages)
      in sort_key (\<lambda>msg. getTime (m_createdAt msg)) messages)"

definition getUserChatMessages :: "string \<Rightarrow> store \<Rightarrow> chat_message list" where
  "getUserChatMessages userId s = getAllChatMessages (Some userId) s"

definition clearChatMessages :: "string option \<Rightarrow> store \<Rightarrow> bool \<times> store" where
  "clearChatMessages userId s =
     (if truthy userId then
        (let userMessages = filter (\<lambda>msg. m_userId msg = userId) (map snd (chatMessages s))
         in (True, s\<lparr>chatMessages := fold (\<lambda>msg. AList.delete (m_id msg)) userMessages
                                          (chatMessages s)\<rparr>))
      else (True, s\<lparr>chatMessages := []\<rparr>))"

subsection \<open>Vector search\<close>

text \<open>
  The loop of \<open>cosineSimilarity\<close> runs over the indices of \<open>a\<close> and is only reached when
  both arrays have the same length, so every read is in range.
\<close>

definition cosine_step ::
  "double list \<Rightarrow> double list \<Rightarrow> nat \<Rightarrow> double \<times> double \<times> double
     \<Rightarrow> double \<times> double \<times> double" where
  "cosine_step a b i acc =
     (case acc of (dotProduct, normA, normB) \<Rightarrow>
        (dadd dotProduct (dmul (a ! i) (b ! i)),
         dadd normA (dmul (a ! i) (a ! i)),
         dadd normB (dmul (b ! i) (b ! i))))"

definition cosineSimilarity :: "double list \<Rightarrow> double list \<Rightarrow> double" where
  "cosineSimilarity a b =
     (if length a \<noteq> length b then Number 0
      else (case fold (cosine_step a b) [0..<length a] (Number 0, Number 0, Number 0) of
              (dotProduct, normA, normB) \<Rightarrow>
                if normA = Number 0 \<or> normB = Number 0 then Number 0
                else ddiv dotProduct (dmul (dsqrt normA) (dsqrt normB))))"

text \<open>
  \<open>xs.slice(0, limit)\<close> for an integral \<open>limit\<close>: a negative end counts from the end of
  the array.
\<close>

definition slice0 :: "int \<Rightarrow> 'a list \<Rightarrow> 'a list" where
  "slice0 limit xs =
     (if limit < 0 then take (nat (int (length xs) + limit)) xs else take (nat limit) xs)"

text \<open>
  The comparator of the ranking is \<open>(a, b) => b.similarity - a.similarity\<close>.
\<close>

definition by_similarity :: "(chunk \<times> double) comparator" where
  "by_similarity a b = dsub (snd b) (snd a)"

definition findSimilarChunks ::
  "(chunk \<times> double) sorter \<Rightarrow> double list \<Rightarrow> string option \<Rightarrow> int option \<Rightarrow> store
     \<Rightarrow> (chunk \<times> double) list" where
  "findSimilarChunks array_sort queryEmbedding userId limit s =
     (let chs = filter (\<lambda>ch. length (c_embedding ch) > 0) (map snd (chunks s));
          chs = (case userId of
                   None \<Rightarrow> chs
                 | Some u \<Rightarrow>
                     if u \<noteq> [] then
                       (let userDocuments = getUserDocuments u s;
                            userDocumentIds = set (map d_id userDocuments)
                        in filter (\<lambda>ch. c_documentId ch \<in> userDocumentIds) chs)
                     else chs);
          similarities = map (\<lambda>ch. (ch, cosineSimilarity queryEmbedding (c_embedding ch))) chs
      in slice0 (nullish limit 5) (array_sort by_similarity similarities))"

section \<open>Collaborators and request handlers\<close>

text \<open>
  A thrown \<open>Error\<close> is a value; a fallible call returns \<open>error + 'a\<close> with \<open>Inl\<close> the
  exception. The external services are arguments of the handlers: the text extractor with
  the chunker (\<open>processDocument\<close>, backed by LlamaIndex), the embedder
  (\<open>generateEmbedding\<close>) and the generator (\<open>streamChatResponse\<close>).
\<close>

datatype error = Error string

record text_chunk =
  tc_content :: string
  tc_metadata :: "json option"

record embedded_chunk =
  ec_content :: string
  ec_metadata :: "json option"
  ec_embedding :: "double list"

record processed_document =
  p_content :: string
  p_chunks :: "text_chunk list"

type_synonym embedder = "string \<Rightarrow> error + double list"

type_synonym processor = "string \<Rightarrow> string \<Rightarrow> string \<Rightarrow> error + processed_document"

subsection \<open>generateChunkEmbeddings (server/services/documentProcessor.ts)\<close>

fun embed_loop :: "embedder \<Rightarrow> text_chunk list \<Rightarrow> embedded_chunk list \<Rightarrow> embedded_chunk list" where
  "embed_loop generateEmbedding [] chunksWithEmbeddings = chunksWithEmbeddings"
| "embed_loop generateEmbedding (ch # rest) chunksWithEmbeddings =
     (case generateEmbedding (tc_content ch) of
        Inr embedding \<Rightarrow>
          embed_loop generateEmbedding rest
            (chunksWithEmbeddings @
               [\<lparr>ec_content = tc_content ch, ec_metadata = tc_metadata ch,
                 ec_embedding = embedding\<rparr>])
      | Inl e \<Rightarrow>
          embed_loop generateEmbedding rest
            (chunksWithEmbeddings @
               [\<lparr>ec_content = tc_content ch, ec_metadata = tc_metadata ch,
                 ec_embedding = []\<rparr>]))"

definition generateChunkEmbeddings :: "embedder \<Rightarrow> text_chunk list \<Rightarrow> embedded_chunk list" where
  "generateChunkEmbeddings generateEmbedding chs = embed_loop generateEmbedding chs []"

subsection \<open>Upload handler (server/routes.ts)\<close>

record upload_file =
  f_originalname :: string
  f_mimetype :: string
  f_size :: int
  f_buffer :: string

datatype upload_response = DocumentJson document | UploadStatus int string

definition save_chunks :: "int \<Rightarrow> embedded_chunk list \<Rightarrow> int \<Rightarrow> store \<Rightarrow> store" where
  "save_chunks documentId chunksWithEmbeddings now s =
     fold (\<lambda>chunkData st.
             snd (createChunk \<lparr>ic_documentId = documentId,
                               ic_content = ec_content chunkData,
                               ic_embedding = Some (ec_embedding chunkData),
                               ic_metadata = ec_metadata chunkData\<rparr> now st))
          chunksWithEmbeddings s"

text \<open>
  The body of the inner \<open>try\<close>: the state is threaded through the steps, and the state at
  the moment of a throw is the one the \<open>catch\<close> block starts from. The background
  processing is run to its end without interleaving with other requests.
\<close>

definition process_upload ::
  "processor \<Rightarrow> embedder \<Rightarrow> upload_file \<Rightarrow> int \<Rightarrow> int \<Rightarrow> store \<Rightarrow> (error + unit) \<times> store" where
  "process_upload processDocument generateEmbedding file documentId now s =
     (let s1 = snd (updateDocumentProgress documentId 25 (Some ''processing'') s)
      in case processDocument (f_buffer file) (f_mimetype file) (f_originalname file) of
           Inl e \<Rightarrow> (Inl e, s1)
         | Inr processed \<Rightarrow>
             (let s2 = snd (updateDocumentProgress documentId 50 None s1);
                  chunksWithEmbeddings =
                    generateChunkEmbeddings generateEmbedding (p_chunks processed);
                  s3 = snd (updateDocumentProgress documentId 75 None s2);
                  s4 = save_chunks documentId chunksWithEmbeddings now s3;
                  s5 = snd (updateDocument documentId
                              (no_updates\<lparr>u_content := Some (p_content processed),
                                 u_chunkCount := Some (int (length chunksWithEmbeddings)),
                                 u_status := Some ''completed'',
                                 u_progress := Some 100\<rparr>) s4)
              in (Inr (), s5)))"

text \<open>The record the handler creates for an uploaded file.\<close>

definition new_upload :: "upload_file \<Rightarrow> string \<Rightarrow> insert_document" where
  "new_upload f userId =
     \<lparr>i_name = f_originalname f, i_originalName = f_originalname f,
      i_mimeType = f_mimetype f, i_size = f_size f, i_content = [],
      i_chunkCount = Some 0, i_status = Some ''processing'',
      i_progress = Some 0, i_userId = Some userId\<rparr>"

definition upload_handler ::
  "processor \<Rightarrow> embedder \<Rightarrow> upload_file option \<Rightarrow> string \<Rightarrow> int \<Rightarrow> store
     \<Rightarrow> upload_response \<times> store" where
  "upload_handler processDocument generateEmbedding file userId now s =
     (case file of
        None \<Rightarrow> (UploadStatus 400 ''No file uploaded'', s)
      | Some f \<Rightarrow>
          (case createDocument (new_upload f userId) now s of
             (doc, s0) \<Rightarrow>
               (DocumentJson doc,
                case process_upload processDocument generateEmbedding f (d_id doc) now s0 of
                  (Inr u, s') \<Rightarrow> s'
                | (Inl e, s') \<Rightarrow> snd (updateDocumentProgress (d_id doc) 0 (Some ''error'') s'))))"

subsection \<open>Chat send handler (server/routes.ts)\<close>

text \<open>
  A run of the generator is the list of fragments it yields and, when it fails, the
  exception that ends it (before the first fragment or between two of them).
\<close>

type_synonym generator =
  "string \<Rightarrow> string list \<Rightarrow> (string \<times> string) list \<Rightarrow> string list \<times> error option"

datatype event = ChunkEvent string | SourcesEvent "source list" | DoneEvent | ErrorEvent string

datatype chat_response = EventStream "event list" | ChatStatus int string

text \<open>
  \<open>Math.round\<close> rounds a finite number to the nearest integer, a half towards plus
  infinity, and leaves the infinities and NaN as they are.
\<close>

fun Math_round :: "double \<Rightarrow> double" where
  "Math_round (Number x) = Number (of_int \<lfloor>x + 1 / 2\<rfloor>)"
| "Math_round x = x"

definition make_source :: "chunk \<times> double \<Rightarrow> source" where
  "make_source p =
     \<lparr>src_documentId = c_documentId (fst p),
      src_content = take 200 (c_content (fst p)) @ ''...'',
      src_similarity = Math_round (dmul (snd p) (Number 100)),
      src_metadata = c_metadata (fst p)\<rparr>"

definition user_message :: "string \<Rightarrow> string \<Rightarrow> insert_chat_message" where
  "user_message content userId =
     \<lparr>im_content = content, im_role = ''user'', im_sources = None, im_userId = Some userId\<rparr>"

text \<open>The call of \<open>streamChatResponse\<close> the handler makes for a question.\<close>

definition generation ::
  "generator \<Rightarrow> string \<Rightarrow> string \<Rightarrow> (chunk \<times> double) list \<Rightarrow> store
     \<Rightarrow> string list \<times> error option" where
  "generation streamChatResponse content userId similarChunks s =
     (let chatHistory = getUserChatMessages userId s;
          formattedHistory = map (\<lambda>msg. (m_role msg, m_content msg)) chatHistory;
          contextTexts = map (\<lambda>p. c_content (fst p)) similarChunks
      in streamChatResponse content contextTexts formattedHistory)"

definition chat_send ::
  "(chunk \<times> double) sorter \<Rightarrow> embedder \<Rightarrow> generator \<Rightarrow> string option \<Rightarrow> string \<Rightarrow> int \<Rightarrow> int
     \<Rightarrow> store \<Rightarrow> chat_response \<times> store" where
  "chat_send array_sort generateEmbedding streamChatResponse content userId now now' s =
     (case content of
        None \<Rightarrow> (ChatStatus 400 ''Message content is required'', s)
      | Some c \<Rightarrow>
          if c = [] then (ChatStatus 400 ''Message content is required'', s)
          else
            (let s1 = snd (createChatMessage (user_message c userId) now s)
             in case generateEmbedding c of
                  Inl e \<Rightarrow> (ChatStatus 500 ''Failed to process message'', s1)
                | Inr queryEmbedding \<Rightarrow>
                    (let similarChunks =
                           findSimilarChunks array_sort queryEmbedding (Some userId) (Some 5) s1
                     in case generation streamChatResponse c userId similarChunks s1 of
                          (fragments, Some e) \<Rightarrow>
                            (EventStream (map ChunkEvent fragments @
                                            [ErrorEvent ''Failed to generate response'']), s1)
                        | (fragments, None) \<Rightarrow>
                            (let fullResponse = concat fragments;
                                 sources = map make_source similarChunks;
                                 s2 = snd (createChatMessage
                                             \<lparr>im_content = fullResponse, im_role = ''assistant'',
                                               im_sources = Some sources,
                                               im_userId = Some userId\<rparr> now' s1)
                             in (EventStream (map ChunkEvent fragments @
                                                [SourcesEvent sources, DoneEvent]), s2)))))"

section \<open>Specification vocabulary\<close>






text \<open>
  Well-formedness of one \<open>Map\<close> of the store: keys are distinct (every \<open>Map\<close> has this),
  and every record is filed under its own \<open>id\<close>.
\<close>

definition ids_match :: "('a \<Rightarrow> int) \<Rightarrow> (int \<times> 'a) list \<Rightarrow> bool" where
  "ids_match f m = (\<forall>p\<in>set m. f (snd p) = fst p)"

definition wf_map :: "('a \<Rightarrow> int) \<Rightarrow> (int \<times> 'a) list \<Rightarrow> bool" where
  "wf_map f m = (distinct (map fst m) \<and> ids_match f m)"

definition keys_below :: "(int \<times> 'a) list \<Rightarrow> int \<Rightarrow> bool" where
  "keys_below m n = (1 \<le> n \<and> (\<forall>k\<in>set (map fst m). 1 \<le> k \<and> k < n))"

text \<open>
  The invariant of the three id counters: a counter is at least 1, every key in use is at
  least 1 and below its counter, keys are distinct, and chunks and messages carry their key
  as \<open>id\<close>.
\<close>

definition store_inv :: "store \<Rightarrow> bool" where
  "store_inv s =
     (distinct (map fst (documents s)) \<and> keys_below (documents s) (currentDocumentId s) \<and>
      wf_map c_id (chunks s) \<and> keys_below (chunks s) (currentChunkId s) \<and>
      wf_map m_id (chatMessages s) \<and> keys_below (chatMessages s) (currentMessageId s))"

text \<open>The state-changing operations of \<open>IStorage\<close>, and a run of them on a fresh store.\<close>

datatype operation =
    CreateDocument insert_document int
  | UpdateDocumentProgress int int "string option"
  | UpdateDocument int document_updates
  | DeleteDocument int
  | CreateChunk insert_chunk int
  | DeleteChunksByDocument int
  | CreateChatMessage insert_chat_message int
  | ClearChatMessages "string option"

fun exec :: "operation \<Rightarrow> store \<Rightarrow> store" where
  "exec (CreateDocument ins now) s = snd (createDocument ins now s)"
| "exec (UpdateDocumentProgress i progress status) s =
     snd (updateDocumentProgress i progress status s)"
| "exec (UpdateDocument i updates) s = snd (updateDocument i updates s)"
| "exec (DeleteDocument i) s = snd (deleteDocument i s)"
| "exec (CreateChunk ins now) s = snd (createChunk ins now s)"
| "exec (DeleteChunksByDocument i) s = snd (deleteChunksByDocument i s)"
| "exec (CreateChatMessage ins now) s = snd (createChatMessage ins now s)"
| "exec (ClearChatMessages userId) s = snd (clearChatMessages userId s)"

definition run :: "operation list \<Rightarrow> store" where
  "run ops = fold exec ops constructor"

fun sets_id :: "operation \<Rightarrow> bool" where
  "sets_id (UpdateDocument i updates) = (u_id updates \<noteq> None)"
| "sets_id _ = False"

subsection \<open>Example inputs\<close>

text \<open>
  A small store used to instantiate the theorems below: three documents owned by
  \<open>alice\<close>, \<open>bob\<close> and nobody, their chunks (one with an empty embedding), a fourth
  document without chunks, and one chat message for each of the three owners.
\<close>

definition doc_for :: "string option \<Rightarrow> insert_document" where
  "doc_for owner =
     \<lparr>i_name = ''a.txt'', i_originalName = ''a.txt'', i_mimeType = ''text/plain'', i_size = 3,
      i_content = ''abc'', i_chunkCount = None, i_status = None, i_progress = None,
      i_userId = owner\<rparr>"

definition chunk_for :: "int \<Rightarrow> double list \<Rightarrow> insert_chunk" where
  "chunk_for documentId embedding =
     \<lparr>ic_documentId = documentId, ic_content = ''abc'', ic_embedding = Some embedding,
      ic_metadata = None\<rparr>"

definition message_for :: "string option \<Rightarrow> insert_chat_message" where
  "message_for owner =
     \<lparr>im_content = ''hi'', im_role = ''user'', im_sources = None, im_userId = owner\<rparr>"

definition example_ops :: "operation list" where
  "example_ops =
     [CreateDocument (doc_for (Some ''alice'')) 10,
      CreateDocument (doc_for (Some ''bob'')) 20,
      CreateDocument (doc_for None) 30,
      CreateChunk (chunk_for 1 [Number 1, Number 0]) 11,
      CreateChunk (chunk_for 2 [Number 1, Number 0]) 21,
      CreateChunk (chunk_for 3 [Number 1, Number 0]) 31,
      CreateChunk (chunk_for 1 []) 12,
      CreateChunk (chunk_for 1 [Number 0, Number 1]) 13,
      CreateDocument (doc_for (Some ''alice'')) 50,
      CreateChatMessage (message_for (Some ''alice'')) 40,
      CreateChatMessage (message_for (Some ''bob'')) 41,
      CreateChatMessage (message_for None) 42]"

definition example_store :: store where
  "example_store = run example_ops"




text \<open>
  Three more runs: one with a message whose owner is the empty string, one that changes
  the \<open>id\<close> field of the document of \<open>bob\<close> to 1, the id of a document of \<open>alice\<close>,
  and one that stores three chunks with the one-dimensional embeddings \<open>-1\<close>,
  \<open>huge_number\<close> and \<open>1\<close>.
\<close>

definition empty_owner_ops :: "operation list" where
  "empty_owner_ops = example_ops @ [CreateChatMessage (message_for (Some [])) 43]"

definition relabel_ops :: "operation list" where
  "relabel_ops = example_ops @ [UpdateDocument 2 (no_updates\<lparr>u_id := Some 1\<rparr>)]"


text \<open>
  Collaborators for the handlers: an uploaded file, an extractor that yields two chunks and
  one that throws, an embedder that fails for the text \<open>def\<close> only, and a generator that
  fails after two fragments.
\<close>

definition example_file :: upload_file where
  "example_file =
     \<lparr>f_originalname = ''b.txt'', f_mimetype = ''text/plain'', f_size = 7, f_buffer = ''abc def''\<rparr>"

definition example_processor :: processor where
  "example_processor buffer mimeType filename =
     Inr \<lparr>p_content = buffer,
          p_chunks = [\<lparr>tc_content = ''abc'', tc_metadata = None\<rparr>,
                      \<lparr>tc_content = ''def'', tc_metadata = None\<rparr>]\<rparr>"

definition failing_processor :: processor where
  "failing_processor buffer mimeType filename = Inl (Error ''Failed to process document'')"

definition example_embedder :: embedder where
  "example_embedder text =
     (if text = ''def'' then Inl (Error ''Failed to generate embedding'') else Inr [Number 0, Number 1])"

definition failing_generator :: generator where
  "failing_generator query context chatHistory =
     ([''Hel'', ''lo''], Some (Error ''Failed to stream response''))"

section \<open>Rounding and arithmetic of numbers\<close>


lemma rhe_of_int [simp]: "round_half_even (of_int n) = n"
  by (simp add: round_half_even_def)


lemma rhe_le: "z \<le> of_int n \<Longrightarrow> round_half_even z \<le> n"
  unfolding round_half_even_def Let_def
  by (auto simp: ) (linarith | smt (verit) floor_le_iff floor_of_int of_int_floor_le)+



lemma binade_minus [simp]: "binade (- x) = binade x"
  by (simp add: binade_def)

lemma ulp_minus [simp]: "ulp (- x) = ulp x"
  by (simp add: ulp_def)

lemma ulp_pos: "0 < ulp x"
  by (simp add: ulp_def)

lemma below_next_binade:
  assumes "x \<noteq> 0"
  shows "\<bar>x\<bar> < 2 powr of_int (binade x + 1)"
proof -
  from assms have pos: "0 < \<bar>x\<bar>" by simp
  have "\<bar>x\<bar> < 2 powr of_int (\<lfloor>log 2 \<bar>x\<bar>\<rfloor> + 1)"
    using floor_log_eq_powr_iff [OF pos, of 2 "\<lfloor>log 2 \<bar>x\<bar>\<rfloor>"] by simp
  also have "\<dots> \<le> 2 powr of_int (binade x + 1)"
    by (intro powr_mono) (simp_all add: binade_def)
  finally show ?thesis .
qed





lemma fl_cases: "fl x = PlusInfinity \<or> fl x = MinusInfinity \<or> (\<exists>y. fl x = Number y)"
  by (simp add: fl_def Let_def)

lemma fl_not_NaN [simp]: "fl x \<noteq> NaN"
  by (simp add: fl_def Let_def)








lemma fl_zero [simp]: "fl 0 = Number 0"
  by (simp add: fl_def)

text \<open>Numbers with a 53-bit significand above the subnormal exponent are unchanged.\<close>

lemma fl_exact:
  assumes x: "x = of_int m * 2 powr of_int k"
    and m: "\<bar>m\<bar> < 2 ^ 53" and k: "- 1074 \<le> k" and fin: "\<bar>x\<bar> < 2 powr 1024"
  shows "fl x = Number x"
proof (cases "x = 0")
  case True
  then show ?thesis by simp
next
  case False
  then have pos: "0 < \<bar>x\<bar>" by simp
  have "\<bar>x\<bar> = of_int \<bar>m\<bar> * 2 powr of_int k" by (simp add: x abs_mult)
  also have "\<dots> < 2 ^ 53 * 2 powr of_int k"
    using m by (intro mult_strict_right_mono) (simp_all flip: of_int_less_iff [where 'a = real])
  also have "\<dots> = 2 powr of_int (k + 53)"
    by (simp add: powr_add)
  finally have "log 2 \<bar>x\<bar> < of_int (k + 53)"
    using pos by (simp add: log_less_iff)
  then have "\<lfloor>log 2 \<bar>x\<bar>\<rfloor> < k + 53" by (simp add: floor_less_iff)
  with k have "binade x - 52 \<le> k" by (simp add: binade_def)
  define j where "j = nat (k - (binade x - 52))"
  have kj: "k = (binade x - 52) + int j"
    using \<open>binade x - 52 \<le> k\<close> by (simp add: j_def)
  define u where "u = ulp x"
  have upos: "0 < u" by (simp add: u_def ulp_pos)
  have "2 powr of_int k = u * 2 ^ j"
    unfolding u_def ulp_def by (subst kj) (simp only: of_int_add powr_add of_int_of_nat_eq powr_realpow zero_less_numeral)
  with x have "x = of_int m * (u * 2 ^ j)" by simp
  then have "x / u = of_int (m * 2 ^ j)"
    using upos by simp
  then have "of_int (round_half_even (x / u)) * u = x"
    using upos by (simp only: rhe_of_int) (simp add: field_simps)
  then have "of_int (round_half_even (x / ulp x)) * ulp x = x" by (simp only: u_def)
  with False fin show ?thesis by (simp add: fl_def Let_def)
qed

lemma fl_one [simp]: "fl 1 = Number 1"
  using fl_exact [of 1 1 0] by simp

lemma fl_minus_one [simp]: "fl (- 1) = Number (- 1)"
  using fl_exact [of "- 1" "- 1" 0] by simp

lemma fl_two [simp]: "fl 2 = Number 2"
  using fl_exact [of 2 2 0] by simp






lemma dneg_dneg [simp]: "dneg (dneg x) = x"
  by (cases x) simp_all

lemma dneg_signed_infinity [simp]: "dneg (signed_infinity p) = signed_infinity (\<not> p)"
  by (simp add: signed_infinity_def)









subsection \<open>Evaluation and comparison of scores\<close>






lemma dless_irrefl [simp]: "\<not> dless x x"
  by (cases x) simp_all


lemma dless_asym: "dless x y \<Longrightarrow> \<not> dless y x"
  by (cases x; cases y) simp_all

lemma dless_linear: "x \<noteq> NaN \<Longrightarrow> y \<noteq> NaN \<Longrightarrow> dless x y \<or> x = y \<or> dless y x"
  by (cases x; cases y) auto

lemma dge_iff: "x \<noteq> NaN \<Longrightarrow> y \<noteq> NaN \<Longrightarrow> dge x y = (\<not> dless x y)"
  by (simp add: dge_def)





lemma fl_of_int: "\<bar>m\<bar> < 2 ^ 53 \<Longrightarrow> fl (of_int m) = Number (of_int m)"
proof -
  assume m: "\<bar>m\<bar> < 2 ^ 53"
  then have "\<bar>of_int m :: real\<bar> < 2 ^ 53"
    by (metis of_int_abs of_int_less_iff of_int_numeral of_int_power)
  also have "(2::real) ^ 53 = 2 powr 53" by (simp del: power_numeral)
  also have "\<dots> < 2 powr 1024" by (rule powr_less_mono) simp_all
  finally show ?thesis
    using fl_exact [of "of_int m" m 0] m by (simp del: powr_numeral)
qed

lemma fl_numeral [simp]: "numeral n < (2::int) ^ 53 \<Longrightarrow> fl (numeral n) = Number (numeral n)"
  using fl_of_int [of "numeral n"] by simp








subsection \<open>The insertion sort meets the contract of \<open>sort\<close>\<close>

lemma mset_insert_sorted: "mset (insert_sorted cmp x ys) = add_mset x (mset ys)"
  by (induction ys) simp_all


lemma mset_insertion_sort: "mset (insertion_sort cmp xs) = mset xs"
  unfolding insertion_sort_def by (induction xs) (simp_all add: mset_insert_sorted)


lemma consistent_subset: "consistent cmp S \<Longrightarrow> T \<subseteq> S \<Longrightarrow> consistent cmp T"
  unfolding consistent_def by (intro conjI ballI impI) (meson subsetD)+








lemma rearranging_insertion_sort: "rearranging insertion_sort"
  unfolding rearranging_def by (intro allI mset_insertion_sort)

section \<open>Cosine similarity\<close>
























section \<open>Association lists as JavaScript Maps\<close>

lemma fold_delete_filter:
  "fold AList.delete ks al = filter (\<lambda>p. fst p \<notin> set ks) al"
proof (induction ks arbitrary: al)
  case Nil
  then show ?case by simp
next
  case (Cons k ks)
  have "AList.delete k al = filter (\<lambda>p. fst p \<noteq> k) al"
    by (simp add: AList.delete_eq case_prod_beta' eq_commute)
  then show ?case using Cons by (simp add: conj_commute)
qed

lemma fold_delete_map:
  "fold (\<lambda>x. AList.delete (f x)) xs al = filter (\<lambda>p. fst p \<notin> f ` set xs) al"
proof -
  have "fold (\<lambda>x. AList.delete (f x)) xs al = fold AList.delete (map f xs) al"
    by (simp add: fold_map comp_def)
  then show ?thesis by (simp add: fold_delete_filter)
qed

lemma wf_map_key_eq:
  assumes "wf_map f m" "p \<in> set m" "p' \<in> set m" "f (snd p') = fst p"
  shows "p' = p"
proof -
  from assms have "fst p' = fst p" by (simp add: wf_map_def ids_match_def)
  moreover from assms have "distinct (map fst m)" by (simp add: wf_map_def)
  ultimately show ?thesis
    using assms(2,3) eq_key_imp_eq_value [of m "fst p" "snd p" "snd p'"]
    by (cases p, cases p') auto
qed

text \<open>Deleting the keys of the records selected by \<open>P\<close> removes exactly those records.\<close>

lemma delete_selected:
  assumes "wf_map f m"
  shows "filter (\<lambda>p. fst p \<notin> f ` set (filter P (map snd m))) m = filter (\<lambda>p. \<not> P (snd p)) m"
proof (rule filter_cong[OF refl])
  fix p assume p: "p \<in> set m"
  show "(fst p \<notin> f ` set (filter P (map snd m))) = (\<not> P (snd p))"
  proof
    assume a: "fst p \<notin> f ` set (filter P (map snd m))"
    show "\<not> P (snd p)"
    proof
      assume "P (snd p)"
      with p have "snd p \<in> set (filter P (map snd m))" by force
      moreover from assms p have "f (snd p) = fst p" by (simp add: wf_map_def ids_match_def)
      ultimately show False using a by force
    qed
  next
    assume n: "\<not> P (snd p)"
    show "fst p \<notin> f ` set (filter P (map snd m))"
    proof
      assume "fst p \<in> f ` set (filter P (map snd m))"
      then obtain p' where p': "p' \<in> set m" "P (snd p')" "f (snd p') = fst p" by auto
      with assms p have "p' = p" by (simp add: wf_map_key_eq)
      with p' n show False by simp
    qed
  qed
qed

lemma chunks_deleteChunksByDocument:
  "wf_map c_id (chunks s) \<Longrightarrow>
   chunks (snd (deleteChunksByDocument i s)) = filter (\<lambda>p. c_documentId (snd p) \<noteq> i) (chunks s)"
  using delete_selected [of c_id "chunks s" "\<lambda>ch. c_documentId ch = i"]
  by (simp add: deleteChunksByDocument_def Let_def fold_delete_filter)

lemma update_existing_keys:
  "map_of al k = Some v \<Longrightarrow> map fst (AList.update k w al) = map fst al"
  by (simp add: AList.update_keys map_of_eq_None_iff[symmetric] del: map_of_eq_None_iff)

lemmas store_defs =
  run_def constructor_def createDocument_def createChunk_def createChatMessage_def
  updateDocumentProgress_def updateDocument_def deleteDocument_def deleteChunksByDocument_def
  clearChatMessages_def getDocument_def getAllDocuments_def getUserDocuments_def
  getChunksByDocument_def getAllChatMessages_def getUserChatMessages_def
  findSimilarChunks_def slice0_def spread_def no_updates_def nullish_def truthy_def getTime_def
  doc_for_def chunk_for_def message_for_def Let_def

lemmas cosine_defs = cosineSimilarity_def cosine_step_def upt_rec

lemma example_store_value:
  "example_store =
     \<lparr>documents =
        [(1, \<lparr>d_id = 1, d_name = ''a.txt'', d_originalName = ''a.txt'',
               d_mimeType = ''text/plain'', d_size = 3, d_content = ''abc'', d_chunkCount = 0,
               d_status = ''processing'', d_progress = 0, d_userId = Some ''alice'',
               d_uploadedAt = Some 10\<rparr>),
         (2, \<lparr>d_id = 2, d_name = ''a.txt'', d_originalName = ''a.txt'',
               d_mimeType = ''text/plain'', d_size = 3, d_content = ''abc'', d_chunkCount = 0,
               d_status = ''processing'', d_progress = 0, d_userId = Some ''bob'',
               d_uploadedAt = Some 20\<rparr>),
         (3, \<lparr>d_id = 3, d_name = ''a.txt'', d_originalName = ''a.txt'',
               d_mimeType = ''text/plain'', d_size = 3, d_content = ''abc'', d_chunkCount = 0,
               d_status = ''processing'', d_progress = 0, d_userId = None,
               d_uploadedAt = Some 30\<rparr>),
         (4, \<lparr>d_id = 4, d_name = ''a.txt'', d_originalName = ''a.txt'',
               d_mimeType = ''text/plain'', d_size = 3, d_content = ''abc'', d_chunkCount = 0,
               d_status = ''processing'', d_progress = 0, d_userId = Some ''alice'',
               d_uploadedAt = Some 50\<rparr>)],
      chunks =
        [(1, \<lparr>c_id = 1, c_documentId = 1, c_content = ''abc'', c_embedding = [Number 1, Number 0],
               c_metadata = None, c_createdAt = Some 11\<rparr>),
         (2, \<lparr>c_id = 2, c_documentId = 2, c_content = ''abc'', c_embedding = [Number 1, Number 0],
               c_metadata = None, c_createdAt = Some 21\<rparr>),
         (3, \<lparr>c_id = 3, c_documentId = 3, c_content = ''abc'', c_embedding = [Number 1, Number 0],
               c_metadata = None, c_createdAt = Some 31\<rparr>),
         (4, \<lparr>c_id = 4, c_documentId = 1, c_content = ''abc'', c_embedding = [],
               c_metadata = None, c_createdAt = Some 12\<rparr>),
         (5, \<lparr>c_id = 5, c_documentId = 1, c_content = ''abc'', c_embedding = [Number 0, Number 1],
               c_metadata = None, c_createdAt = Some 13\<rparr>)],
      chatMessages =
        [(1, \<lparr>m_id = 1, m_content = ''hi'', m_role = ''user'', m_sources = None,
               m_userId = Some ''alice'', m_createdAt = Some 40\<rparr>),
         (2, \<lparr>m_id = 2, m_content = ''hi'', m_role = ''user'', m_sources = None,
               m_userId = Some ''bob'', m_createdAt = Some 41\<rparr>),
         (3, \<lparr>m_id = 3, m_content = ''hi'', m_role = ''user'', m_sources = None,
               m_userId = None, m_createdAt = Some 42\<rparr>)],
      currentDocumentId = 5, currentChunkId = 6, currentMessageId = 4\<rparr>"
  by (simp add: example_store_def example_ops_def store_defs)

lemma example_store_wf:
  "wf_map d_id (documents example_store) \<and> wf_map c_id (chunks example_store) \<and>
   wf_map m_id (chatMessages example_store)"
  by (simp add: example_store_value wf_map_def ids_match_def)

section \<open>Store invariant\<close>

text \<open>
  Every store reached from the fresh one by store operations satisfies \<open>store_inv\<close>, and
  documents keep their key as \<open>id\<close> unless \<open>updateDocument\<close> is given one.
\<close>

lemma update_fresh: "k \<notin> fst ` set al \<Longrightarrow> AList.update k v al = al @ [(k, v)]"
  by (induction al) auto

lemma keys_below_fresh: "keys_below m n \<Longrightarrow> n \<notin> fst ` set m"
  by (auto simp: keys_below_def)

lemma keys_below_append: "keys_below m n \<Longrightarrow> keys_below (m @ [(n, v)]) (n + 1)"
  by (auto simp: keys_below_def)

lemma keys_below_filter: "keys_below m n \<Longrightarrow> keys_below (filter P m) n"
  by (auto simp: keys_below_def)

lemma keys_below_same_keys: "map fst m' = map fst m \<Longrightarrow> keys_below m' n = keys_below m n"
  by (simp add: keys_below_def)

lemma wf_map_append:
  "wf_map f m \<Longrightarrow> n \<notin> fst ` set m \<Longrightarrow> f v = n \<Longrightarrow> wf_map f (m @ [(n, v)])"
  by (auto simp: wf_map_def ids_match_def)

lemma wf_map_filter: "wf_map f m \<Longrightarrow> wf_map f (filter P m)"
  by (auto simp: wf_map_def ids_match_def distinct_map_filter)

lemma ids_match_filter: "ids_match f m \<Longrightarrow> ids_match f (filter P m)"
  by (auto simp: ids_match_def)

lemma ids_match_update:
  "ids_match f m \<Longrightarrow> f v = k \<Longrightarrow> ids_match f (AList.update k v m)"
  by (induction m) (auto simp: ids_match_def)

lemma delete_filter: "AList.delete k al = filter (\<lambda>p. fst p \<noteq> k) al"
  by (simp add: AList.delete_eq case_prod_beta' eq_commute)

lemma documents_createDocument:
  "keys_below (documents s) (currentDocumentId s) \<Longrightarrow>
   documents (snd (createDocument ins now s)) =
     documents s @ [(currentDocumentId s, fst (createDocument ins now s))]"
  by (simp add: createDocument_def Let_def update_fresh keys_below_fresh)

lemma chunks_createChunk:
  "keys_below (chunks s) (currentChunkId s) \<Longrightarrow>
   chunks (snd (createChunk ins now s)) =
     chunks s @ [(currentChunkId s, fst (createChunk ins now s))]"
  by (simp add: createChunk_def Let_def update_fresh keys_below_fresh)

lemma chatMessages_createChatMessage:
  "keys_below (chatMessages s) (currentMessageId s) \<Longrightarrow>
   chatMessages (snd (createChatMessage ins now s)) =
     chatMessages s @ [(currentMessageId s, fst (createChatMessage ins now s))]"
  by (simp add: createChatMessage_def Let_def update_fresh keys_below_fresh)

lemma store_inv_createDocument:
  assumes "store_inv s"
  shows "store_inv (snd (createDocument ins now s))"
proof -
  from assms have kb: "keys_below (documents s) (currentDocumentId s)"
    by (simp add: store_inv_def)
  have rest: "chunks (snd (createDocument ins now s)) = chunks s"
    "chatMessages (snd (createDocument ins now s)) = chatMessages s"
    "currentDocumentId (snd (createDocument ins now s)) = currentDocumentId s + 1"
    "currentChunkId (snd (createDocument ins now s)) = currentChunkId s"
    "currentMessageId (snd (createDocument ins now s)) = currentMessageId s"
    by (simp_all add: createDocument_def Let_def)
  show ?thesis
    unfolding store_inv_def documents_createDocument [OF kb] rest
    using assms keys_below_append [OF kb] keys_below_fresh [OF kb]
    by (simp add: store_inv_def)
qed

lemma store_inv_createChunk:
  assumes "store_inv s"
  shows "store_inv (snd (createChunk ins now s))"
proof -
  from assms have kb: "keys_below (chunks s) (currentChunkId s)"
    and wf: "wf_map c_id (chunks s)"
    by (simp_all add: store_inv_def)
  have rest: "documents (snd (createChunk ins now s)) = documents s"
    "chatMessages (snd (createChunk ins now s)) = chatMessages s"
    "currentChunkId (snd (createChunk ins now s)) = currentChunkId s + 1"
    "currentDocumentId (snd (createChunk ins now s)) = currentDocumentId s"
    "currentMessageId (snd (createChunk ins now s)) = currentMessageId s"
    by (simp_all add: createChunk_def Let_def)
  have "c_id (fst (createChunk ins now s)) = currentChunkId s"
    by (simp add: createChunk_def Let_def)
  with wf have "wf_map c_id (chunks s @ [(currentChunkId s, fst (createChunk ins now s))])"
    by (intro wf_map_append keys_below_fresh [OF kb])
  then show ?thesis
    unfolding store_inv_def chunks_createChunk [OF kb] rest
    using assms keys_below_append [OF kb]
    by (simp add: store_inv_def)
qed

lemma store_inv_createChatMessage:
  assumes "store_inv s"
  shows "store_inv (snd (createChatMessage ins now s))"
proof -
  from assms have kb: "keys_below (chatMessages s) (currentMessageId s)"
    and wf: "wf_map m_id (chatMessages s)"
    by (simp_all add: store_inv_def)
  have rest: "documents (snd (createChatMessage ins now s)) = documents s"
    "chunks (snd (createChatMessage ins now s)) = chunks s"
    "currentMessageId (snd (createChatMessage ins now s)) = currentMessageId s + 1"
    "currentDocumentId (snd (createChatMessage ins now s)) = currentDocumentId s"
    "currentChunkId (snd (createChatMessage ins now s)) = currentChunkId s"
    by (simp_all add: createChatMessage_def Let_def)
  have "m_id (fst (createChatMessage ins now s)) = currentMessageId s"
    by (simp add: createChatMessage_def Let_def)
  with wf have "wf_map m_id (chatMessages s @ [(currentMessageId s, fst (createChatMessage ins now s))])"
    by (intro wf_map_append keys_below_fresh [OF kb])
  then show ?thesis
    unfolding store_inv_def chatMessages_createChatMessage [OF kb] rest
    using assms keys_below_append [OF kb]
    by (simp add: store_inv_def)
qed

lemma store_inv_documents_update:
  assumes "store_inv s" "map_of (documents s) i = Some doc"
  shows "store_inv (s\<lparr>documents := AList.update i doc' (documents s)\<rparr>)"
  using assms update_existing_keys [OF assms(2), of doc']
  by (simp add: store_inv_def keys_below_def)

lemma store_inv_updateDocument: "store_inv s \<Longrightarrow> store_inv (snd (updateDocument i u s))"
  by (cases "map_of (documents s) i")
     (simp_all add: updateDocument_def Let_def store_inv_documents_update)

lemma store_inv_updateDocumentProgress:
  "store_inv s \<Longrightarrow> store_inv (snd (updateDocumentProgress i p st s))"
  by (cases "map_of (documents s) i")
     (simp_all add: updateDocumentProgress_def Let_def store_inv_documents_update)

lemma store_inv_deleteChunksByDocument:
  "store_inv s \<Longrightarrow> store_inv (snd (deleteChunksByDocument i s))"
  by (simp add: store_inv_def deleteChunksByDocument_def Let_def fold_delete_filter
      wf_map_filter keys_below_filter)

lemma store_inv_deleteDocument:
  assumes "store_inv s"
  shows "store_inv (snd (deleteDocument i s))"
proof -
  from assms have "store_inv (s\<lparr>documents := AList.delete i (documents s)\<rparr>)"
    by (simp add: store_inv_def delete_filter keys_below_filter distinct_map_filter)
  then show ?thesis
    by (simp add: deleteDocument_def Let_def store_inv_deleteChunksByDocument)
qed

lemma store_inv_clearChatMessages:
  assumes "store_inv s"
  shows "store_inv (snd (clearChatMessages u s))"
proof (cases "truthy u")
  case True
  with assms show ?thesis
    by (simp add: store_inv_def clearChatMessages_def Let_def fold_delete_map
        wf_map_filter keys_below_filter)
next
  case False
  with assms show ?thesis
    by (simp add: store_inv_def clearChatMessages_def wf_map_def ids_match_def keys_below_def)
qed

lemma store_inv_exec: "store_inv s \<Longrightarrow> store_inv (exec op s)"
  by (cases op)
     (simp_all add: store_inv_createDocument store_inv_createChunk store_inv_createChatMessage
        store_inv_updateDocument store_inv_updateDocumentProgress store_inv_deleteDocument
        store_inv_deleteChunksByDocument store_inv_clearChatMessages)

lemma store_inv_fold: "store_inv s \<Longrightarrow> store_inv (fold exec ops s)"
  by (induction ops arbitrary: s) (simp_all add: store_inv_exec)

lemma store_inv_constructor: "store_inv constructor"
  by (simp add: store_inv_def constructor_def wf_map_def ids_match_def keys_below_def)

lemma store_inv_run: "store_inv (run ops)"
  unfolding run_def by (rule store_inv_fold) (rule store_inv_constructor)

lemma counters_exec:
  "currentDocumentId s \<le> currentDocumentId (exec op s) \<and>
   currentChunkId s \<le> currentChunkId (exec op s) \<and>
   currentMessageId s \<le> currentMessageId (exec op s)"
proof (cases op)
  case (UpdateDocumentProgress i p st)
  then show ?thesis
    by (cases "map_of (documents s) i") (simp_all add: updateDocumentProgress_def Let_def)
next
  case (UpdateDocument i u)
  then show ?thesis
    by (cases "map_of (documents s) i") (simp_all add: updateDocument_def Let_def)
qed (simp_all add: createDocument_def createChunk_def createChatMessage_def
        deleteDocument_def deleteChunksByDocument_def clearChatMessages_def Let_def)

lemma counters_fold:
  "currentDocumentId s \<le> currentDocumentId (fold exec ops s) \<and>
   currentChunkId s \<le> currentChunkId (fold exec ops s) \<and>
   currentMessageId s \<le> currentMessageId (fold exec ops s)"
proof (induction ops arbitrary: s)
  case Nil
  then show ?case by simp
next
  case (Cons op ops)
  show ?case using counters_exec [of s op] Cons [of "exec op s"] by simp
qed

lemma run_append: "run (ops @ ops') = fold exec ops' (run ops)"
  by (simp add: run_def)

lemma doc_ids_updateDocument:
  assumes "u_id u = None" "ids_match d_id (documents s)"
  shows "ids_match d_id (documents (snd (updateDocument i u s)))"
proof (cases "map_of (documents s) i")
  case None
  with assms show ?thesis by (simp add: updateDocument_def)
next
  case (Some doc)
  then have "(i, doc) \<in> set (documents s)" by (rule map_of_SomeD)
  with assms(2) have "d_id doc = i" by (auto simp: ids_match_def)
  with assms(1) have "d_id (spread doc u) = i" by (simp add: spread_def nullish_def)
  with assms(2) Some show ?thesis
    by (simp add: updateDocument_def Let_def ids_match_update)
qed

lemma doc_ids_updateDocumentProgress:
  assumes "ids_match d_id (documents s)"
  shows "ids_match d_id (documents (snd (updateDocumentProgress i p st s)))"
proof (cases "map_of (documents s) i")
  case None
  with assms show ?thesis by (simp add: updateDocumentProgress_def)
next
  case (Some doc)
  then have "(i, doc) \<in> set (documents s)" by (rule map_of_SomeD)
  with assms have "d_id doc = i" by (auto simp: ids_match_def)
  then have "d_id (spread doc upd) = i" if "u_id upd = None" for upd
    using that by (simp add: spread_def nullish_def)
  with assms Some show ?thesis
    by (simp add: updateDocumentProgress_def Let_def ids_match_update no_updates_def)
qed

lemma doc_ids_exec:
  assumes "\<not> sets_id op" "ids_match d_id (documents s)"
  shows "ids_match d_id (documents (exec op s))"
proof (cases op)
  case (CreateDocument ins now)
  with assms show ?thesis by (simp add: createDocument_def Let_def ids_match_update)
next
  case (UpdateDocumentProgress i p st)
  with assms show ?thesis by (simp add: doc_ids_updateDocumentProgress)
next
  case (UpdateDocument i u)
  with assms show ?thesis by (simp add: doc_ids_updateDocument)
next
  case (DeleteDocument i)
  with assms show ?thesis
    by (simp add: deleteDocument_def deleteChunksByDocument_def Let_def delete_filter ids_match_filter)
next
  case (CreateChunk ins now)
  with assms show ?thesis by (simp add: createChunk_def Let_def)
next
  case (DeleteChunksByDocument i)
  with assms show ?thesis by (simp add: deleteChunksByDocument_def Let_def)
next
  case (CreateChatMessage ins now)
  with assms show ?thesis by (simp add: createChatMessage_def Let_def)
next
  case (ClearChatMessages u)
  with assms show ?thesis by (simp add: clearChatMessages_def Let_def)
qed

lemma doc_ids_fold:
  "\<forall>op\<in>set ops. \<not> sets_id op \<Longrightarrow> ids_match d_id (documents s) \<Longrightarrow>
   ids_match d_id (documents (fold exec ops s))"
  by (induction ops arbitrary: s) (simp_all add: doc_ids_exec)

lemma doc_ids_run: "\<forall>op\<in>set ops. \<not> sets_id op \<Longrightarrow> ids_match d_id (documents (run ops))"
  unfolding run_def by (rule doc_ids_fold) (simp_all add: constructor_def ids_match_def)

lemma keys_below_values:
  "keys_below m n \<Longrightarrow> ids_match f m \<Longrightarrow> \<forall>v\<in>snd ` set m. f v < n"
  by (force simp: keys_below_def ids_match_def)

section \<open>Document store\<close>

text \<open>
  C9. For an existing document id, \<open>updateDocumentProgress\<close> returns the updated record
  and stores it under the same key: its progress is the argument, its status differs from
  the old one only if a status argument was supplied (and then is that argument), and every
  other field is the old one. Every other document, the order of the documents, the chunks,
  the messages and the counters are unchanged. For a missing id the result is absent and the
  store is unchanged.
\<close>

theorem updateDocumentProgress_frame:
  assumes "updateDocumentProgress i progress status s = (r, s')"
  shows "(getDocument i s = None \<longrightarrow> r = None \<and> s' = s) \<and>
         (\<forall>doc. getDocument i s = Some doc \<longrightarrow>
            (\<exists>doc'. r = Some doc' \<and> getDocument i s' = Some doc' \<and>
               d_progress doc' = progress \<and>
               (d_status doc' \<noteq> d_status doc \<longrightarrow> status = Some (d_status doc')) \<and>
               (status = None \<longrightarrow> d_status doc' = d_status doc) \<and>
               doc'\<lparr>d_status := d_status doc\<rparr> = doc\<lparr>d_progress := progress\<rparr>)) \<and>
         (\<forall>j. j \<noteq> i \<longrightarrow> getDocument j s' = getDocument j s) \<and>
         map fst (documents s') = map fst (documents s) \<and>
         s'\<lparr>documents := documents s\<rparr> = s"
proof (cases "map_of (documents s) i")
  case None
  with assms have "r = None" "s' = s" by (simp_all add: updateDocumentProgress_def)
  with None show ?thesis by (simp add: getDocument_def)
next
  case (Some doc)
  define doc' where "doc' = doc\<lparr>d_progress := progress,
    d_status := (if truthy status then the status else d_status doc)\<rparr>"
  have upd: "spread doc (if truthy status then no_updates\<lparr>u_progress := Some progress,
                 u_status := status\<rparr> else no_updates\<lparr>u_progress := Some progress\<rparr>) = doc'"
    by (cases status) (simp_all add: doc'_def spread_def no_updates_def nullish_def truthy_def)
  from assms Some have r: "r = Some doc'"
    and s': "s' = s\<lparr>documents := AList.update i doc' (documents s)\<rparr>"
    using upd by (simp_all add: updateDocumentProgress_def Let_def if_distrib [of "spread doc"])
  have st: "d_status doc' \<noteq> d_status doc \<longrightarrow> status = Some (d_status doc')"
    by (cases status) (simp_all add: doc'_def truthy_def)
  have st': "status = None \<longrightarrow> d_status doc' = d_status doc"
    by (simp add: doc'_def truthy_def)
  have fields: "doc'\<lparr>d_status := d_status doc\<rparr> = doc\<lparr>d_progress := progress\<rparr>"
    by (simp add: doc'_def)
  have pr: "d_progress doc' = progress" by (simp add: doc'_def)
  have get: "getDocument i s' = Some doc'"
    by (simp add: s' getDocument_def AList.update_conv')
  have a: "getDocument i s = None \<longrightarrow> r = None \<and> s' = s"
    using Some by (simp add: getDocument_def)
  have b: "\<forall>doc. getDocument i s = Some doc \<longrightarrow>
            (\<exists>doc'. r = Some doc' \<and> getDocument i s' = Some doc' \<and>
               d_progress doc' = progress \<and>
               (d_status doc' \<noteq> d_status doc \<longrightarrow> status = Some (d_status doc')) \<and>
               (status = None \<longrightarrow> d_status doc' = d_status doc) \<and>
               doc'\<lparr>d_status := d_status doc\<rparr> = doc\<lparr>d_progress := progress\<rparr>)"
  proof (intro allI impI)
    fix doc0
    assume "getDocument i s = Some doc0"
    with Some have eq: "doc0 = doc" by (simp add: getDocument_def)
    show "\<exists>doc'. r = Some doc' \<and> getDocument i s' = Some doc' \<and>
               d_progress doc' = progress \<and>
               (d_status doc' \<noteq> d_status doc0 \<longrightarrow> status = Some (d_status doc')) \<and>
               (status = None \<longrightarrow> d_status doc' = d_status doc0) \<and>
               doc'\<lparr>d_status := d_status doc0\<rparr> = doc0\<lparr>d_progress := progress\<rparr>"
      unfolding eq by (intro exI [of _ doc'] conjI r get pr st st' fields)
  qed
  have c: "\<forall>j. j \<noteq> i \<longrightarrow> getDocument j s' = getDocument j s"
    by (simp add: s' getDocument_def AList.update_conv')
  have d: "map fst (documents s') = map fst (documents s)"
    using Some by (simp add: s' update_existing_keys)
  have e: "s'\<lparr>documents := documents s\<rparr> = s" by (simp add: s')
  from a b c d e show ?thesis by (intro conjI)
qed

theorem updateDocumentProgress_frame_witness:
  "getDocument 9 example_store = None \<and>
   updateDocumentProgress 9 50 None example_store = (None, example_store) \<and>
   getDocument 1 example_store \<noteq> None \<and>
   map_option d_progress (fst (updateDocumentProgress 1 50 None example_store)) = Some 50 \<and>
   map_option d_status (fst (updateDocumentProgress 1 50 None example_store)) =
     Some ''processing'' \<and>
   map_option d_status (fst (updateDocumentProgress 1 100 (Some ''completed'') example_store)) =
     Some ''completed'' \<and>
   getDocument 1 (snd (updateDocumentProgress 1 50 None example_store)) =
     fst (updateDocumentProgress 1 50 None example_store) \<and>
   getDocument 2 (snd (updateDocumentProgress 1 50 None example_store)) =
     getDocument 2 example_store \<and>
   (snd (updateDocumentProgress 1 50 None example_store))\<lparr>documents := documents example_store\<rparr>
     = example_store"
proof -
  have missing: "getDocument 9 example_store = None"
    by (simp add: example_store_value getDocument_def)
  have present: "getDocument 1 example_store \<noteq> None"
    by (simp add: example_store_value getDocument_def)
  from missing
    updateDocumentProgress_frame [where i = 9 and progress = 50 and status = None
      and s = example_store, OF surjective_pairing]
  have 1: "updateDocumentProgress 9 50 None example_store = (None, example_store)"
    by (simp add: prod_eq_iff)
  from updateDocumentProgress_frame [where i = 1 and progress = 50 and status = None
      and s = example_store, OF surjective_pairing]
  have 2: "getDocument 2 (snd (updateDocumentProgress 1 50 None example_store)) =
             getDocument 2 example_store"
    and 3: "(snd (updateDocumentProgress 1 50 None example_store))\<lparr>documents := documents example_store\<rparr>
             = example_store"
    by simp_all
  have 4: "map_option d_progress (fst (updateDocumentProgress 1 50 None example_store)) = Some 50"
    "map_option d_status (fst (updateDocumentProgress 1 50 None example_store)) = Some ''processing''"
    "map_option d_status (fst (updateDocumentProgress 1 100 (Some ''completed'') example_store)) =
       Some ''completed''"
    "getDocument 1 (snd (updateDocumentProgress 1 50 None example_store)) =
       fst (updateDocumentProgress 1 50 None example_store)"
    by (simp_all add: example_store_value store_defs)
  from missing present 1 2 3 4 show ?thesis by (intro conjI)
qed

text \<open>
  C6. \<open>deleteDocument\<close> returns false and changes nothing when the id is not in the store.
  Otherwise it returns true, the document is gone, no chunk of that document is left and the
  chunks of the other documents are the ones there were; this holds as well when the
  document had no chunk, where \<open>deleteChunksByDocument\<close> itself reports false. The
  hypothesis, that chunks are filed under their own distinct ids, holds in every store
  reached by store operations (\<open>store_inv_run\<close>).
\<close>

theorem deleteDocument_cascade:
  assumes "wf_map c_id (chunks s)" and "deleteDocument i s = (r, s')"
  shows "(getDocument i s = None \<longrightarrow> r = False \<and> s' = s) \<and>
         (getDocument i s \<noteq> None \<longrightarrow>
            r = True \<and> getDocument i s' = None \<and> getChunksByDocument i s' = [] \<and>
            (\<forall>j. j \<noteq> i \<longrightarrow> getChunksByDocument j s' = getChunksByDocument j s)) \<and>
         (getDocument i s \<noteq> None \<and> getChunksByDocument i s = [] \<longrightarrow>
            r = True \<and>
            fst (deleteChunksByDocument i (s\<lparr>documents := AList.delete i (documents s)\<rparr>)) = False)"
proof -
  let ?s1 = "s\<lparr>documents := AList.delete i (documents s)\<rparr>"
  have wf1: "wf_map c_id (chunks ?s1)" using assms(1) by simp
  have missing: "r = False \<and> s' = s" if "getDocument i s = None"
  proof -
    from that have "i \<notin> fst ` set (documents s)"
      by (simp add: getDocument_def map_of_eq_None_iff)
    then have "AList.delete i (documents s) = documents s" by (rule AList.delete_id)
    with that assms(2) show ?thesis by (simp add: deleteDocument_def getDocument_def)
  qed
  have present: "r = True \<and> s' = snd (deleteChunksByDocument i ?s1)" if "getDocument i s \<noteq> None"
    using that assms(2) by (auto simp: deleteDocument_def getDocument_def Let_def)
  have ch: "chunks (snd (deleteChunksByDocument i ?s1)) = filter (\<lambda>p. c_documentId (snd p) \<noteq> i) (chunks s)"
    using chunks_deleteChunksByDocument [OF wf1] by simp
  have docs: "documents (snd (deleteChunksByDocument i ?s1)) = AList.delete i (documents s)"
    by (simp add: deleteChunksByDocument_def Let_def)
  have gone: "getChunksByDocument i (snd (deleteChunksByDocument i ?s1)) = []"
    by (simp add: getChunksByDocument_def ch filter_map comp_def)
  have others: "getChunksByDocument j (snd (deleteChunksByDocument i ?s1)) = getChunksByDocument j s"
    if "j \<noteq> i" for j
  proof -
    have "filter ((\<lambda>ch. c_documentId ch = j) \<circ> snd) (filter (\<lambda>p. c_documentId (snd p) \<noteq> i) (chunks s))
          = filter ((\<lambda>ch. c_documentId ch = j) \<circ> snd) (chunks s)"
      using that by (auto intro: filter_cong)
    then show ?thesis by (simp add: getChunksByDocument_def ch filter_map)
  qed
  have flag: "fst (deleteChunksByDocument i ?s1) = False" if "getChunksByDocument i s = []"
    using that by (simp add: deleteChunksByDocument_def getChunksByDocument_def Let_def)
  show ?thesis
    using missing present gone others flag
    by (auto simp: getDocument_def docs AList.delete_conv')
qed

theorem deleteDocument_cascade_witness:
  "wf_map c_id (chunks example_store) \<and>
   getDocument 9 example_store = None \<and>
   deleteDocument 9 example_store = (False, example_store) \<and>
   getDocument 1 example_store \<noteq> None \<and> length (getChunksByDocument 1 example_store) = 3 \<and>
   fst (deleteDocument 1 example_store) = True \<and>
   getDocument 1 (snd (deleteDocument 1 example_store)) = None \<and>
   getChunksByDocument 1 (snd (deleteDocument 1 example_store)) = [] \<and>
   getChunksByDocument 2 (snd (deleteDocument 1 example_store)) =
     getChunksByDocument 2 example_store \<and>
   getDocument 4 example_store \<noteq> None \<and> getChunksByDocument 4 example_store = [] \<and>
   fst (deleteDocument 4 example_store) = True"
proof -
  have wf: "wf_map c_id (chunks example_store)" using example_store_wf by simp
  have pre: "getDocument 9 example_store = None" "getDocument 1 example_store \<noteq> None"
    "length (getChunksByDocument 1 example_store) = 3"
    "getDocument 4 example_store \<noteq> None" "getChunksByDocument 4 example_store = []"
    by (simp_all add: example_store_value getDocument_def getChunksByDocument_def)
  from pre(1) deleteDocument_cascade [where s = example_store and i = 9, OF wf surjective_pairing]
  have 1: "deleteDocument 9 example_store = (False, example_store)"
    by (simp add: prod_eq_iff)
  from pre(2) deleteDocument_cascade [where s = example_store and i = 1, OF wf surjective_pairing]
  have 2: "fst (deleteDocument 1 example_store) = True"
    "getDocument 1 (snd (deleteDocument 1 example_store)) = None"
    "getChunksByDocument 1 (snd (deleteDocument 1 example_store)) = []"
    "getChunksByDocument 2 (snd (deleteDocument 1 example_store)) =
       getChunksByDocument 2 example_store"
    by simp_all
  from pre(4,5) deleteDocument_cascade [where s = example_store and i = 4, OF wf surjective_pairing]
  have 3: "fst (deleteDocument 4 example_store) = True"
    by simp
  from wf pre 1 2 3 show ?thesis by (intro conjI)
qed

section \<open>Chat transcript store\<close>

text \<open>
  C8 (amended). In every store reached by store operations and for a non-empty owner \<open>u\<close>,
  \<open>clearChatMessages\<close> removes exactly the messages whose owner is \<open>u\<close>: what is left are
  the other messages (those of other owners and those without owner), unchanged and in
  their order, none of \<open>u\<close> is left, and it reports success. Without an owner argument it
  removes every message and reports success, and so it does for the empty string as owner
  argument, whoever owns the messages.
\<close>

theorem clearChatMessages_scoped:
  assumes "u \<noteq> []" and "s = run ops"
  shows "clearChatMessages (Some u) s =
           (True, s\<lparr>chatMessages := filter (\<lambda>p. m_userId (snd p) \<noteq> Some u) (chatMessages s)\<rparr>) \<and>
         getUserChatMessages u (snd (clearChatMessages (Some u) s)) = [] \<and>
         clearChatMessages None s = (True, s\<lparr>chatMessages := []\<rparr>) \<and>
         clearChatMessages (Some []) s = (True, s\<lparr>chatMessages := []\<rparr>) \<and>
         fst (clearChatMessages userId s) = True"
proof -
  have wf: "wf_map m_id (chatMessages s)"
    using store_inv_run [of ops] by (simp add: assms(2) store_inv_def)
  have 1: "clearChatMessages (Some u) s =
           (True, s\<lparr>chatMessages := filter (\<lambda>p. m_userId (snd p) \<noteq> Some u) (chatMessages s)\<rparr>)"
    using assms(1) delete_selected [OF wf, of "\<lambda>msg. m_userId msg = Some u"]
    by (simp add: clearChatMessages_def truthy_def Let_def fold_delete_map)
  have 2: "getUserChatMessages u (snd (clearChatMessages (Some u) s)) = []"
    using assms(1)
    by (simp add: 1 getUserChatMessages_def getAllChatMessages_def truthy_def Let_def filter_map comp_def)
  show ?thesis using 1 2 by (simp add: clearChatMessages_def truthy_def)
qed

theorem clearChatMessages_scoped_witness:
  "''alice'' \<noteq> [] \<and> example_store = run example_ops \<and>
   fst (clearChatMessages (Some ''alice'') example_store) = True \<and>
   map fst (chatMessages (snd (clearChatMessages (Some ''alice'') example_store))) = [2, 3] \<and>
   map_of (chatMessages (snd (clearChatMessages (Some ''alice'') example_store))) 2 =
     map_of (chatMessages example_store) 2 \<and>
   getUserChatMessages ''alice'' (snd (clearChatMessages (Some ''alice'') example_store)) = [] \<and>
   chatMessages (snd (clearChatMessages None example_store)) = [] \<and>
   chatMessages (snd (clearChatMessages (Some []) example_store)) = []"
proof -
  have ne: "''alice'' \<noteq> []" by simp
  have r: "example_store = run example_ops" by (rule example_store_def)
  note t = clearChatMessages_scoped [where userId = None, OF ne r]
  have 1: "fst (clearChatMessages (Some ''alice'') example_store) = True"
    by (simp add: t [THEN conjunct1])
  have 2: "getUserChatMessages ''alice'' (snd (clearChatMessages (Some ''alice'') example_store)) = []"
    by (rule t [THEN conjunct2, THEN conjunct1])
  have 3: "chatMessages (snd (clearChatMessages None example_store)) = []"
    by (simp add: t [THEN conjunct2, THEN conjunct2, THEN conjunct1])
  have 5: "chatMessages (snd (clearChatMessages (Some []) example_store)) = []"
    by (simp add: t [THEN conjunct2, THEN conjunct2, THEN conjunct2, THEN conjunct1])
  have "chatMessages (snd (clearChatMessages (Some ''alice'') example_store)) =
      filter (\<lambda>p. m_userId (snd p) \<noteq> Some ''alice'') (chatMessages example_store)"
    by (simp add: t [THEN conjunct1])
  then have 4: "map fst (chatMessages (snd (clearChatMessages (Some ''alice'') example_store))) = [2, 3]"
    "map_of (chatMessages (snd (clearChatMessages (Some ''alice'') example_store))) 2 =
       map_of (chatMessages example_store) 2"
    by (simp_all add: example_store_value)
  from ne r 1 2 3 4 5 show ?thesis by (intro conjI)
qed

text \<open>
  The claim as stated fails for the empty string as owner. In the store of
  \<open>empty_owner_ops\<close> the empty string and \<open>bob\<close> both own a message; clearing the messages
  of the empty string deletes the message of \<open>bob\<close> as well, and every other message.
\<close>

theorem clearChatMessages_empty_owner_counterexample:
  "map (m_userId \<circ> snd) (chatMessages (run empty_owner_ops)) =
     [Some ''alice'', Some ''bob'', None, Some []] \<and>
   chatMessages (snd (clearChatMessages (Some []) (run empty_owner_ops))) = []"
proof -
  have "run empty_owner_ops = exec (CreateChatMessage (message_for (Some [])) 43) example_store"
    by (simp add: empty_owner_ops_def run_append example_store_def)
  then show ?thesis
    by (simp add: example_store_value store_defs)
qed

section \<open>Vector search\<close>

lemmas sort_defs = insertion_sort_def by_similarity_def sort_sign_def dsub_def


lemma rearranging_set: "rearranging array_sort \<Longrightarrow> set (array_sort cmp xs) = set xs"
  unfolding rearranging_def by (metis mset_eq_setD)

lemma rearranging_length: "rearranging array_sort \<Longrightarrow> length (array_sort cmp xs) = length xs"
  unfolding rearranging_def by (metis mset_eq_length)



lemma set_slice0: "set (slice0 limit xs) \<subseteq> set xs"
  by (auto simp: slice0_def dest: in_set_takeD)

lemma slice0_all: "int (length xs) \<le> limit \<Longrightarrow> slice0 limit xs = xs"
  by (simp add: slice0_def)

lemma set_getUserDocuments:
  "u \<noteq> [] \<Longrightarrow> set (getUserDocuments u s) = {doc \<in> snd ` set (documents s). d_userId doc = Some u}"
  by (auto simp: getUserDocuments_def getAllDocuments_def truthy_def Let_def)

lemma wf_map_lookup:
  assumes "wf_map f m" "p \<in> set m"
  shows "map_of m (f (snd p)) = Some (snd p)"
proof -
  from assms have "f (snd p) = fst p" "distinct (map fst m)"
    by (simp_all add: wf_map_def ids_match_def)
  with assms(2) show ?thesis
    using map_of_eq_Some_iff [of m "fst p" "snd p"] by simp
qed











lemma wf_map_documents_run:
  "\<forall>op\<in>set ops. \<not> sets_id op \<Longrightarrow> wf_map d_id (documents (run ops))"
  using doc_ids_run [of ops] store_inv_run [of ops] by (simp add: wf_map_def store_inv_def)

lemma relabel_store_value:
  "run relabel_ops = exec (UpdateDocument 2 (no_updates\<lparr>u_id := Some 1\<rparr>)) example_store"
  by (simp add: relabel_ops_def run_append example_store_def)

text \<open>
  C1 (amended). With a \<open>sort\<close> that returns a rearrangement of its array and for a
  non-empty owner \<open>u\<close>, every chunk that \<open>findSimilarChunks\<close> returns under the owner
  filter \<open>u\<close> carries as \<open>documentId\<close> the \<open>id\<close> field of a stored document owned by
  \<open>u\<close>. In a store whose documents are filed under their own distinct ids, the parent
  document of such a chunk is in the store and is owned by \<open>u\<close>: chunks of documents of
  another owner, of documents without owner and of no document are excluded. This is the
  case in every store reached by store operations none of which is an \<open>updateDocument\<close>
  with an \<open>id\<close> field. The empty string as owner filter gives the result of the search
  without owner filter. Without owner filter, or with the empty string as owner filter,
  every stored chunk with a non-empty embedding is a candidate, whoever owns its document:
  a limit of at least the number of chunks returns them all.
\<close>

theorem findSimilarChunks_owner_scoping:
  assumes "rearranging array_sort"
  shows "(u \<noteq> [] \<longrightarrow>
            (\<forall>p\<in>set (findSimilarChunks array_sort q (Some u) limit s).
               \<exists>doc\<in>snd ` set (documents s).
                 d_userId doc = Some u \<and> d_id doc = c_documentId (fst p))) \<and>
         (u \<noteq> [] \<and> wf_map d_id (documents s) \<longrightarrow>
            (\<forall>p\<in>set (findSimilarChunks array_sort q (Some u) limit s).
               \<exists>doc. getDocument (c_documentId (fst p)) s = Some doc \<and> d_userId doc = Some u)) \<and>
         (u \<noteq> [] \<and> (\<forall>op\<in>set ops. \<not> sets_id op) \<longrightarrow>
            (\<forall>p\<in>set (findSimilarChunks array_sort q (Some u) limit (run ops)).
               \<exists>doc. getDocument (c_documentId (fst p)) (run ops) = Some doc \<and>
                     d_userId doc = Some u)) \<and>
         findSimilarChunks array_sort q (Some []) limit s = findSimilarChunks array_sort q None limit s \<and>
         (int (length (chunks s)) \<le> n \<longrightarrow>
            fst ` set (findSimilarChunks array_sort q None (Some n) s) =
              {ch \<in> snd ` set (chunks s). c_embedding ch \<noteq> []} \<and>
            fst ` set (findSimilarChunks array_sort q (Some []) (Some n) s) =
              {ch \<in> snd ` set (chunks s). c_embedding ch \<noteq> []})"
proof -
  have ids: "\<exists>doc\<in>snd ` set (documents s). d_userId doc = Some u \<and> d_id doc = c_documentId (fst p)"
    if "u \<noteq> []" "p \<in> set (findSimilarChunks array_sort q (Some u) limit s)" for p s
  proof -
    from that have "c_documentId (fst p) \<in> d_id ` set (getUserDocuments u s)"
      using set_slice0 [of "nullish limit 5"] rearranging_set [OF assms, of by_similarity]
      by (fastforce simp: findSimilarChunks_def Let_def)
    then show ?thesis
      using that(1) by (auto simp: set_getUserDocuments)
  qed
  have parent: "\<exists>doc. getDocument (c_documentId (fst p)) s = Some doc \<and> d_userId doc = Some u"
    if "u \<noteq> []" "wf_map d_id (documents s)"
      "p \<in> set (findSimilarChunks array_sort q (Some u) limit s)" for p s
  proof -
    from ids [OF that(1,3)]
    obtain e where e: "e \<in> set (documents s)" "d_userId (snd e) = Some u"
        "d_id (snd e) = c_documentId (fst p)"
      by auto
    from wf_map_lookup [OF that(2) e(1)] e show ?thesis
      by (simp add: getDocument_def)
  qed
  have 1: "u \<noteq> [] \<longrightarrow>
            (\<forall>p\<in>set (findSimilarChunks array_sort q (Some u) limit s).
               \<exists>doc\<in>snd ` set (documents s).
                 d_userId doc = Some u \<and> d_id doc = c_documentId (fst p))"
    using ids by blast
  have 2: "u \<noteq> [] \<and> wf_map d_id (documents s) \<longrightarrow>
            (\<forall>p\<in>set (findSimilarChunks array_sort q (Some u) limit s).
               \<exists>doc. getDocument (c_documentId (fst p)) s = Some doc \<and> d_userId doc = Some u)"
    using parent by blast
  have 3: "u \<noteq> [] \<and> (\<forall>op\<in>set ops. \<not> sets_id op) \<longrightarrow>
            (\<forall>p\<in>set (findSimilarChunks array_sort q (Some u) limit (run ops)).
               \<exists>doc. getDocument (c_documentId (fst p)) (run ops) = Some doc \<and>
                     d_userId doc = Some u)"
    using parent [of "run ops"] wf_map_documents_run [of ops] by blast
  have 4: "findSimilarChunks array_sort q (Some []) limit s = findSimilarChunks array_sort q None limit s"
    by (simp add: findSimilarChunks_def)
  have 5: "int (length (chunks s)) \<le> n \<longrightarrow>
            fst ` set (findSimilarChunks array_sort q None (Some n) s) =
              {ch \<in> snd ` set (chunks s). c_embedding ch \<noteq> []} \<and>
            fst ` set (findSimilarChunks array_sort q (Some []) (Some n) s) =
              {ch \<in> snd ` set (chunks s). c_embedding ch \<noteq> []}"
  proof
    assume len: "int (length (chunks s)) \<le> n"
    let ?cands = "filter (\<lambda>ch. length (c_embedding ch) > 0) (map snd (chunks s))"
    let ?scored = "map (\<lambda>ch. (ch, cosineSimilarity q (c_embedding ch))) ?cands"
    let ?sorted = "array_sort by_similarity ?scored"
    have "length ?sorted = length ?scored" using assms by (rule rearranging_length)
    then have "length ?sorted \<le> length (chunks s)"
      using length_filter_le [of "\<lambda>ch. length (c_embedding ch) > 0" "map snd (chunks s)"] by simp
    with len have "slice0 n ?sorted = ?sorted" by (intro slice0_all) linarith
    then have "findSimilarChunks array_sort q None (Some n) s = ?sorted"
      by (simp add: findSimilarChunks_def nullish_def)
    moreover have "set ?sorted = set ?scored" using assms by (rule rearranging_set)
    ultimately have "fst ` set (findSimilarChunks array_sort q None (Some n) s) =
              {ch \<in> snd ` set (chunks s). c_embedding ch \<noteq> []}"
      by (force simp: image_iff)
    moreover have "findSimilarChunks array_sort q (Some []) (Some n) s =
        findSimilarChunks array_sort q None (Some n) s"
      by (simp add: findSimilarChunks_def)
    ultimately show "fst ` set (findSimilarChunks array_sort q None (Some n) s) =
              {ch \<in> snd ` set (chunks s). c_embedding ch \<noteq> []} \<and>
            fst ` set (findSimilarChunks array_sort q (Some []) (Some n) s) =
              {ch \<in> snd ` set (chunks s). c_embedding ch \<noteq> []}"
      by simp
  qed
  from 1 2 3 4 5 show ?thesis by (intro conjI)
qed


theorem findSimilarChunks_owner_scoping_witness:
  "rearranging (insertion_sort :: (chunk \<times> double) sorter) \<and>
   ''alice'' \<noteq> [] \<and> wf_map d_id (documents example_store) \<and>
   example_store = run example_ops \<and> list_all (\<lambda>op. \<not> sets_id op) example_ops \<and>
   map (c_id \<circ> fst)
     (findSimilarChunks insertion_sort [Number 0, Number 1] (Some ''alice'') (Some 5) example_store) =
     [5, 1] \<and>
   (\<exists>doc\<in>snd ` set (documents example_store).
      d_userId doc = Some ''alice'' \<and>
      d_id doc = c_documentId (fst (hd
        (findSimilarChunks insertion_sort [Number 0, Number 1] (Some ''alice'') (Some 5) example_store)))) \<and>
   (\<exists>doc. getDocument
             (c_documentId (fst (hd
                (findSimilarChunks insertion_sort [Number 0, Number 1] (Some ''alice'') (Some 5)
                   example_store))))
             example_store = Some doc \<and> d_userId doc = Some ''alice'') \<and>
   (\<exists>doc. getDocument
             (c_documentId (fst (hd
                (findSimilarChunks insertion_sort [Number 0, Number 1] (Some ''alice'') (Some 5)
                   (run example_ops)))))
             (run example_ops) = Some doc \<and> d_userId doc = Some ''alice'') \<and>
   findSimilarChunks insertion_sort [Number 0, Number 1] (Some []) (Some 5) example_store =
     findSimilarChunks insertion_sort [Number 0, Number 1] None (Some 5) example_store \<and>
   int (length (chunks example_store)) \<le> 5 \<and>
   fst ` set (findSimilarChunks insertion_sort [Number 0, Number 1] None (Some 5) example_store) =
     {ch \<in> snd ` set (chunks example_store). c_embedding ch \<noteq> []} \<and>
   fst ` set (findSimilarChunks insertion_sort [Number 0, Number 1] (Some []) (Some 5) example_store) =
     {ch \<in> snd ` set (chunks example_store). c_embedding ch \<noteq> []}"
proof -
  let ?r = "findSimilarChunks insertion_sort [Number 0, Number 1] (Some ''alice'') (Some 5) example_store"
  have c: "rearranging (insertion_sort :: (chunk \<times> double) sorter)"
    by (rule rearranging_insertion_sort)
  have ne: "''alice'' \<noteq> []" by simp
  have wf: "wf_map d_id (documents example_store)" using example_store_wf by simp
  have r: "example_store = run example_ops" by (rule example_store_def)
  have ops: "list_all (\<lambda>op. \<not> sets_id op) example_ops" by (simp add: example_ops_def)
  then have ops': "\<forall>op\<in>set example_ops. \<not> sets_id op" by (simp add: list_all_iff)
  note t = findSimilarChunks_owner_scoping [where q = "[Number 0, Number 1]" and limit = "Some 5"
      and n = 5 and u = "''alice''" and s = example_store and ops = example_ops, OF c]
  have ids: "map (c_id \<circ> fst) ?r = [5, 1]"
    by (simp add: example_store_value store_defs cosine_defs sort_defs)
  then have "?r \<noteq> []" by auto
  then have hd: "hd ?r \<in> set ?r" by (rule hd_in_set)
  from t [THEN conjunct1, THEN mp, OF ne] hd
  have 1: "\<exists>doc\<in>snd ` set (documents example_store).
      d_userId doc = Some ''alice'' \<and> d_id doc = c_documentId (fst (hd ?r))"
    by (rule bspec)
  from t [THEN conjunct2, THEN conjunct1, THEN mp, OF conjI [OF ne wf]] hd
  have 2: "\<exists>doc. getDocument (c_documentId (fst (hd ?r))) example_store = Some doc \<and>
      d_userId doc = Some ''alice''"
    by (rule bspec)
  from t [THEN conjunct2, THEN conjunct2, THEN conjunct1, THEN mp, OF conjI [OF ne ops']]
    hd [unfolded r]
  have 3: "\<exists>doc. getDocument
             (c_documentId (fst (hd
                (findSimilarChunks insertion_sort [Number 0, Number 1] (Some ''alice'') (Some 5)
                   (run example_ops)))))
             (run example_ops) = Some doc \<and> d_userId doc = Some ''alice''"
    by (rule bspec)
  note 4 = t [THEN conjunct2, THEN conjunct2, THEN conjunct2, THEN conjunct1]
  have len: "int (length (chunks example_store)) \<le> 5" by (simp add: example_store_value)
  with t [THEN conjunct2, THEN conjunct2, THEN conjunct2, THEN conjunct2]
  have 5: "fst ` set (findSimilarChunks insertion_sort [Number 0, Number 1] None (Some 5) example_store) =
     {ch \<in> snd ` set (chunks example_store). c_embedding ch \<noteq> []} \<and>
   fst ` set (findSimilarChunks insertion_sort [Number 0, Number 1] (Some []) (Some 5) example_store) =
     {ch \<in> snd ` set (chunks example_store). c_embedding ch \<noteq> []}"
    by (rule mp)
  from c ne wf r ops ids 1 2 3 4 len 5 [THEN conjunct1] 5 [THEN conjunct2]
  show ?thesis by (intro conjI)
qed

text \<open>
  The claim as stated fails twice, here with the insertion sort as \<open>sort\<close>. With the empty
  string as owner filter the search is not scoped, and the second result is a chunk of
  document 2, which \<open>bob\<close> owns. And in the store of \<open>relabel_ops\<close>, where the document
  of \<open>bob\<close> carries the \<open>id\<close> field 1, the search of \<open>bob\<close> returns the chunks 1 and 5 of
  document 1, which \<open>alice\<close> owns.
\<close>

theorem findSimilarChunks_owner_counterexample:
  "c_documentId (fst
     (findSimilarChunks insertion_sort [Number 1, Number 0] (Some []) (Some 5) example_store ! 1)) = 2 \<and>
   length (findSimilarChunks insertion_sort [Number 1, Number 0] (Some []) (Some 5) example_store) = 4 \<and>
   map_option d_userId (getDocument 2 example_store) = Some (Some ''bob'') \<and>
   map (\<lambda>p. (c_id (fst p), c_documentId (fst p)))
     (findSimilarChunks insertion_sort [Number 1, Number 0] (Some ''bob'') (Some 5) (run relabel_ops)) =
     [(1, 1), (5, 1)] \<and>
   map_option d_userId (getDocument 1 (run relabel_ops)) = Some (Some ''alice'')"
proof -
  have 1: "c_documentId (fst
     (findSimilarChunks insertion_sort [Number 1, Number 0] (Some []) (Some 5) example_store ! 1)) = 2"
    and 2: "length (findSimilarChunks insertion_sort [Number 1, Number 0] (Some []) (Some 5) example_store) = 4"
    and 3: "map_option d_userId (getDocument 2 example_store) = Some (Some ''bob'')"
    by (simp_all add: example_store_value store_defs cosine_defs sort_defs)
  have 4: "map (\<lambda>p. (c_id (fst p), c_documentId (fst p)))
     (findSimilarChunks insertion_sort [Number 1, Number 0] (Some ''bob'') (Some 5) (run relabel_ops)) =
     [(1, 1), (5, 1)]"
    and 5: "map_option d_userId (getDocument 1 (run relabel_ops)) = Some (Some ''alice'')"
    unfolding relabel_store_value
    by (simp_all add: example_store_value store_defs cosine_defs sort_defs)
  from 1 2 3 4 5 show ?thesis by (intro conjI)
qed

section \<open>Identifier counters\<close>

text \<open>
  C10 (amended). In every store reached from the fresh one by store operations, keys are
  distinct, at least 1 and below their counter, and every chunk and message carries its key
  as id. A create operation assigns the counter value: it is greater than every key in use
  (and than every chunk or message id in use), the record is appended under that key and no
  entry is overwritten, and after any further operations the counter is strictly greater
  than the id assigned, so that a later create assigns a greater id. A document's own
  \<open>id\<close> field is its key, and below the counter, as long as no \<open>updateDocument\<close> has been
  given an \<open>id\<close> field.
\<close>

theorem create_assigns_fresh_ids:
  "store_inv (run ops) \<and>
   (d_id (fst (createDocument insD nowD (run ops))) = currentDocumentId (run ops) \<and>
    (\<forall>k\<in>fst ` set (documents (run ops)). k < currentDocumentId (run ops)) \<and>
    documents (snd (createDocument insD nowD (run ops))) =
      documents (run ops) @ [(currentDocumentId (run ops), fst (createDocument insD nowD (run ops)))] \<and>
    currentDocumentId (run ops) < currentDocumentId (run (ops @ CreateDocument insD nowD # ops'))) \<and>
   (c_id (fst (createChunk insC nowC (run ops))) = currentChunkId (run ops) \<and>
    (\<forall>k\<in>fst ` set (chunks (run ops)). k < currentChunkId (run ops)) \<and>
    (\<forall>ch\<in>snd ` set (chunks (run ops)). c_id ch < currentChunkId (run ops)) \<and>
    chunks (snd (createChunk insC nowC (run ops))) =
      chunks (run ops) @ [(currentChunkId (run ops), fst (createChunk insC nowC (run ops)))] \<and>
    currentChunkId (run ops) < currentChunkId (run (ops @ CreateChunk insC nowC # ops'))) \<and>
   (m_id (fst (createChatMessage insM nowM (run ops))) = currentMessageId (run ops) \<and>
    (\<forall>k\<in>fst ` set (chatMessages (run ops)). k < currentMessageId (run ops)) \<and>
    (\<forall>msg\<in>snd ` set (chatMessages (run ops)). m_id msg < currentMessageId (run ops)) \<and>
    chatMessages (snd (createChatMessage insM nowM (run ops))) =
      chatMessages (run ops) @
        [(currentMessageId (run ops), fst (createChatMessage insM nowM (run ops)))] \<and>
    currentMessageId (run ops) < currentMessageId (run (ops @ CreateChatMessage insM nowM # ops'))) \<and>
   ((\<forall>op\<in>set ops. \<not> sets_id op) \<longrightarrow>
      wf_map d_id (documents (run ops)) \<and>
      (\<forall>doc\<in>snd ` set (documents (run ops)). d_id doc < currentDocumentId (run ops)))"
proof -
  have inv: "store_inv (run ops)" by (rule store_inv_run)
  then have kd: "keys_below (documents (run ops)) (currentDocumentId (run ops))"
    and kc: "keys_below (chunks (run ops)) (currentChunkId (run ops))"
    and km: "keys_below (chatMessages (run ops)) (currentMessageId (run ops))"
    and wc: "wf_map c_id (chunks (run ops))" and wm: "wf_map m_id (chatMessages (run ops))"
    and dd: "distinct (map fst (documents (run ops)))"
    by (simp_all add: store_inv_def)
  have d1: "d_id (fst (createDocument insD nowD (run ops))) = currentDocumentId (run ops)"
    by (simp add: createDocument_def Let_def)
  have d2: "\<forall>k\<in>fst ` set (documents (run ops)). k < currentDocumentId (run ops)"
    using kd by (simp add: keys_below_def)
  note d3 = documents_createDocument [OF kd, of insD nowD]
  have d4: "currentDocumentId (run ops) < currentDocumentId (run (ops @ CreateDocument insD nowD # ops'))"
  proof -
    have "currentDocumentId (exec (CreateDocument insD nowD) (run ops)) = currentDocumentId (run ops) + 1"
      by (simp add: createDocument_def Let_def)
    with counters_fold [of "exec (CreateDocument insD nowD) (run ops)" ops']
    show ?thesis by (simp add: run_append)
  qed
  have c1: "c_id (fst (createChunk insC nowC (run ops))) = currentChunkId (run ops)"
    by (simp add: createChunk_def Let_def)
  have c2: "\<forall>k\<in>fst ` set (chunks (run ops)). k < currentChunkId (run ops)"
    using kc by (simp add: keys_below_def)
  have c2': "\<forall>ch\<in>snd ` set (chunks (run ops)). c_id ch < currentChunkId (run ops)"
    using kc wc by (intro keys_below_values) (simp_all add: wf_map_def)
  note c3 = chunks_createChunk [OF kc, of insC nowC]
  have c4: "currentChunkId (run ops) < currentChunkId (run (ops @ CreateChunk insC nowC # ops'))"
  proof -
    have "currentChunkId (exec (CreateChunk insC nowC) (run ops)) = currentChunkId (run ops) + 1"
      by (simp add: createChunk_def Let_def)
    with counters_fold [of "exec (CreateChunk insC nowC) (run ops)" ops']
    show ?thesis by (simp add: run_append)
  qed
  have m1: "m_id (fst (createChatMessage insM nowM (run ops))) = currentMessageId (run ops)"
    by (simp add: createChatMessage_def Let_def)
  have m2: "\<forall>k\<in>fst ` set (chatMessages (run ops)). k < currentMessageId (run ops)"
    using km by (simp add: keys_below_def)
  have m2': "\<forall>msg\<in>snd ` set (chatMessages (run ops)). m_id msg < currentMessageId (run ops)"
    using km wm by (intro keys_below_values) (simp_all add: wf_map_def)
  note m3 = chatMessages_createChatMessage [OF km, of insM nowM]
  have m4: "currentMessageId (run ops) < currentMessageId (run (ops @ CreateChatMessage insM nowM # ops'))"
  proof -
    have "currentMessageId (exec (CreateChatMessage insM nowM) (run ops)) = currentMessageId (run ops) + 1"
      by (simp add: createChatMessage_def Let_def)
    with counters_fold [of "exec (CreateChatMessage insM nowM) (run ops)" ops']
    show ?thesis by (simp add: run_append)
  qed
  have ids: "wf_map d_id (documents (run ops)) \<and>
      (\<forall>doc\<in>snd ` set (documents (run ops)). d_id doc < currentDocumentId (run ops))"
    if "\<forall>op\<in>set ops. \<not> sets_id op"
  proof -
    from that have im: "ids_match d_id (documents (run ops))" by (rule doc_ids_run)
    with dd have "wf_map d_id (documents (run ops))" by (simp add: wf_map_def)
    moreover from kd im have "\<forall>doc\<in>snd ` set (documents (run ops)). d_id doc < currentDocumentId (run ops)"
      by (rule keys_below_values)
    ultimately show ?thesis ..
  qed
  from inv d1 d2 d3 d4 c1 c2 c2' c3 c4 m1 m2 m2' m3 m4 ids show ?thesis
    by (intro conjI impI) blast+
qed

lemma example_store_after_update:
  "documents (run (example_ops @ [UpdateDocument 1 (no_updates\<lparr>u_id := Some 5\<rparr>)])) =
     AList.update 1 (spread (snd (hd (documents example_store))) (no_updates\<lparr>u_id := Some 5\<rparr>))
       (documents example_store) \<and>
   currentDocumentId (run (example_ops @ [UpdateDocument 1 (no_updates\<lparr>u_id := Some 5\<rparr>)])) = 5"
  by (simp add: run_append example_store_def [symmetric])
     (simp add: example_store_value updateDocument_def Let_def)

theorem create_assigns_fresh_ids_witness:
  "store_inv example_store \<and>
   d_id (fst (createDocument (doc_for None) 60 example_store)) = 5 \<and>
   map fst (documents example_store) = [1, 2, 3, 4] \<and>
   map fst (documents (snd (createDocument (doc_for None) 60 example_store))) = [1, 2, 3, 4, 5] \<and>
   5 < currentDocumentId (run (example_ops @ CreateDocument (doc_for None) 60 # [DeleteDocument 5])) \<and>
   c_id (fst (createChunk (chunk_for 1 [Number 1]) 60 example_store)) = 6 \<and>
   m_id (fst (createChatMessage (message_for None) 60 example_store)) = 4 \<and>
   list_all (\<lambda>op. \<not> sets_id op) example_ops \<and>
   wf_map d_id (documents example_store)"
proof -
  note t = create_assigns_fresh_ids [where ops = example_ops and insD = "doc_for None"
      and nowD = 60 and insC = "chunk_for 1 [Number 1]" and nowC = 60 and insM = "message_for None"
      and nowM = 60 and ops' = "[DeleteDocument 5]", folded example_store_def]
  have cur: "currentDocumentId example_store = 5" "currentChunkId example_store = 6"
    "currentMessageId example_store = 4"
    by (simp_all add: example_store_value)
  have 1: "store_inv example_store" by (rule t [THEN conjunct1])
  have 2: "d_id (fst (createDocument (doc_for None) 60 example_store)) = 5"
    using t cur by simp
  have 3: "map fst (documents example_store) = [1, 2, 3, 4]"
    by (simp add: example_store_value)
  have "documents (snd (createDocument (doc_for None) 60 example_store)) =
      documents example_store @ [(5, fst (createDocument (doc_for None) 60 example_store))]"
    using t cur by simp
  with 3 have 4: "map fst (documents (snd (createDocument (doc_for None) 60 example_store))) = [1, 2, 3, 4, 5]"
    by simp
  have 5: "5 < currentDocumentId (run (example_ops @ CreateDocument (doc_for None) 60 # [DeleteDocument 5]))"
    using t cur by simp
  have 6: "c_id (fst (createChunk (chunk_for 1 [Number 1]) 60 example_store)) = 6"
    using t cur by simp
  have 7: "m_id (fst (createChatMessage (message_for None) 60 example_store)) = 4"
    using t cur by simp
  have 8: "list_all (\<lambda>op. \<not> sets_id op) example_ops"
    by (simp add: example_ops_def)
  then have "\<forall>op\<in>set example_ops. \<not> sets_id op" by (simp add: list_all_iff)
  with t have 9: "wf_map d_id (documents example_store)" by blast
  from 1 2 3 4 5 6 7 8 9 show ?thesis by (intro conjI)
qed

text \<open>
  The claim as stated fails once \<open>updateDocument\<close> has been given an \<open>id\<close>: after
  \<open>updateDocument(1, {id: 5})\<close> the next document gets the id 5, which the record filed
  under key 1 carries already.
\<close>

theorem create_assigns_fresh_ids_counterexample:
  "d_id (fst (createDocument (doc_for None) 60
      (run (example_ops @ [UpdateDocument 1 (no_updates\<lparr>u_id := Some 5\<rparr>)])))) = 5 \<and>
   map_option d_id (getDocument 1
      (run (example_ops @ [UpdateDocument 1 (no_updates\<lparr>u_id := Some 5\<rparr>)]))) = Some 5"
  using example_store_after_update
  by (simp add: createDocument_def getDocument_def Let_def example_store_value spread_def
      no_updates_def nullish_def)

section \<open>Ingestion pipeline\<close>

lemma embed_loop_map:
  "embed_loop generateEmbedding chs acc =
     acc @ map (\<lambda>ch. \<lparr>ec_content = tc_content ch, ec_metadata = tc_metadata ch,
                        ec_embedding = (case generateEmbedding (tc_content ch) of
                                          Inl e \<Rightarrow> [] | Inr embedding \<Rightarrow> embedding)\<rparr>) chs"
  by (induction chs arbitrary: acc) (simp_all split: sum.split)

lemma generateChunkEmbeddings_map:
  "generateChunkEmbeddings generateEmbedding chs =
     map (\<lambda>ch. \<lparr>ec_content = tc_content ch, ec_metadata = tc_metadata ch,
                  ec_embedding = (case generateEmbedding (tc_content ch) of
                                    Inl e \<Rightarrow> [] | Inr embedding \<Rightarrow> embedding)\<rparr>) chs"
  by (simp add: generateChunkEmbeddings_def embed_loop_map)

lemma failed_embeddings:
  assumes "\<forall>ch\<in>set chs. generateEmbedding (tc_content ch) \<noteq> Inr []"
  shows "filter (\<lambda>ec. ec_embedding ec = []) (generateChunkEmbeddings generateEmbedding chs) =
         map (\<lambda>ch. \<lparr>ec_content = tc_content ch, ec_metadata = tc_metadata ch, ec_embedding = []\<rparr>)
           (filter (\<lambda>ch. isl (generateEmbedding (tc_content ch))) chs)"
  using assms
proof (induction chs)
  case Nil
  then show ?case by (simp add: generateChunkEmbeddings_map)
next
  case (Cons ch chs)
  then show ?case
    by (cases "generateEmbedding (tc_content ch)") (simp_all add: generateChunkEmbeddings_map)
qed

text \<open>What the persist loop does to the store.\<close>

lemma save_chunks_effect:
  assumes "keys_below (chunks s) (currentChunkId s)"
  shows "\<exists>new. chunks (save_chunks d ecs now s) = chunks s @ new \<and>
           map (\<lambda>p. c_embedding (snd p)) new = map ec_embedding ecs \<and>
           map (\<lambda>p. c_content (snd p)) new = map ec_content ecs \<and>
           (\<forall>p\<in>set new. c_documentId (snd p) = d) \<and>
           documents (save_chunks d ecs now s) = documents s \<and>
           chatMessages (save_chunks d ecs now s) = chatMessages s \<and>
           currentDocumentId (save_chunks d ecs now s) = currentDocumentId s \<and>
           currentMessageId (save_chunks d ecs now s) = currentMessageId s"
  using assms
proof (induction ecs arbitrary: s)
  case Nil
  then show ?case by (simp add: save_chunks_def)
next
  case (Cons ec ecs)
  let ?ins = "\<lparr>ic_documentId = d, ic_content = ec_content ec,
                 ic_embedding = Some (ec_embedding ec), ic_metadata = ec_metadata ec\<rparr>"
  let ?s1 = "snd (createChunk ?ins now s)"
  have step: "save_chunks d (ec # ecs) now s = save_chunks d ecs now ?s1"
    by (simp add: save_chunks_def)
  have ch1: "chunks ?s1 = chunks s @ [(currentChunkId s, fst (createChunk ?ins now s))]"
    using Cons.prems by (rule chunks_createChunk)
  have cur: "currentChunkId ?s1 = currentChunkId s + 1"
    by (simp add: createChunk_def Let_def)
  have kb: "keys_below (chunks ?s1) (currentChunkId ?s1)"
    unfolding ch1 cur using Cons.prems by (rule keys_below_append)
  have same: "documents ?s1 = documents s" "chatMessages ?s1 = chatMessages s"
    "currentDocumentId ?s1 = currentDocumentId s" "currentMessageId ?s1 = currentMessageId s"
    by (simp_all add: createChunk_def Let_def)
  have fields: "c_embedding (fst (createChunk ?ins now s)) = ec_embedding ec"
    "c_content (fst (createChunk ?ins now s)) = ec_content ec"
    "c_documentId (fst (createChunk ?ins now s)) = d"
    by (simp_all add: createChunk_def Let_def nullish_def)
  from Cons.IH [OF kb] obtain new where new:
    "chunks (save_chunks d ecs now ?s1) = chunks ?s1 @ new"
    "map (\<lambda>p. c_embedding (snd p)) new = map ec_embedding ecs"
    "map (\<lambda>p. c_content (snd p)) new = map ec_content ecs"
    "\<forall>p\<in>set new. c_documentId (snd p) = d"
    "documents (save_chunks d ecs now ?s1) = documents ?s1"
    "chatMessages (save_chunks d ecs now ?s1) = chatMessages ?s1"
    "currentDocumentId (save_chunks d ecs now ?s1) = currentDocumentId ?s1"
    "currentMessageId (save_chunks d ecs now ?s1) = currentMessageId ?s1"
    by blast
  show ?case
    unfolding step
    by (rule exI [of _ "(currentChunkId s, fst (createChunk ?ins now s)) # new"])
       (simp add: new ch1 same fields)
qed

lemma updateDocumentProgress_chunks:
  "chunks (snd (updateDocumentProgress i p st s)) = chunks s \<and>
   currentChunkId (snd (updateDocumentProgress i p st s)) = currentChunkId s \<and>
   chatMessages (snd (updateDocumentProgress i p st s)) = chatMessages s"
  by (cases "map_of (documents s) i") (simp_all add: updateDocumentProgress_def Let_def)

lemma updateDocument_chunks:
  "chunks (snd (updateDocument i u s)) = chunks s \<and>
   currentChunkId (snd (updateDocument i u s)) = currentChunkId s \<and>
   chatMessages (snd (updateDocument i u s)) = chatMessages s"
  by (cases "map_of (documents s) i") (simp_all add: updateDocument_def Let_def)

lemma getDocument_updateDocumentProgress:
  "getDocument i s = Some doc \<Longrightarrow>
   getDocument i (snd (updateDocumentProgress i p st s)) =
     Some (doc\<lparr>d_progress := p, d_status := (if truthy st then the st else d_status doc)\<rparr>)"
  by (cases st)
     (simp_all add: getDocument_def updateDocumentProgress_def Let_def AList.update_conv'
        spread_def no_updates_def nullish_def truthy_def)

lemma getDocument_updateDocumentProgress_other:
  "j \<noteq> i \<Longrightarrow> getDocument j (snd (updateDocumentProgress i p st s)) = getDocument j s"
  by (cases "map_of (documents s) i")
     (simp_all add: getDocument_def updateDocumentProgress_def Let_def AList.update_conv')

lemma getDocument_updateDocument:
  "getDocument i s = Some doc \<Longrightarrow>
   getDocument i (snd (updateDocument i u s)) = Some (spread doc u)"
  by (simp add: getDocument_def updateDocument_def Let_def AList.update_conv')

lemma getDocument_createDocument:
  "getDocument (currentDocumentId s) (snd (createDocument ins now s)) =
     Some (fst (createDocument ins now s))"
  by (simp add: getDocument_def createDocument_def Let_def AList.update_conv')

lemma createDocument_chunks:
  "chunks (snd (createDocument ins now s)) = chunks s \<and>
   currentChunkId (snd (createDocument ins now s)) = currentChunkId s \<and>
   d_id (fst (createDocument ins now s)) = currentDocumentId s"
  by (simp add: createDocument_def Let_def)

text \<open>The two outcomes of the body of the \<open>try\<close> block.\<close>

lemma process_upload_raises:
  "process_upload processDocument generateEmbedding f d now s = (Inl e, s1) \<longleftrightarrow>
     processDocument (f_buffer f) (f_mimetype f) (f_originalname f) = Inl e \<and>
     s1 = snd (updateDocumentProgress d 25 (Some ''processing'') s)"
  by (cases "processDocument (f_buffer f) (f_mimetype f) (f_originalname f)")
     (auto simp: process_upload_def Let_def)

lemma upload_handler_success:
  assumes inv: "keys_below (chunks s) (currentChunkId s)"
    and proc: "processDocument (f_buffer f) (f_mimetype f) (f_originalname f) = Inr processed"
  shows "\<exists>doc new.
           getDocument (currentDocumentId s)
             (snd (upload_handler processDocument generateEmbedding (Some f) userId now s)) = Some doc \<and>
           d_status doc = ''completed'' \<and> d_progress doc = 100 \<and>
           d_chunkCount doc =
             int (length (generateChunkEmbeddings generateEmbedding (p_chunks processed))) \<and>
           chunks (snd (upload_handler processDocument generateEmbedding (Some f) userId now s)) =
             chunks s @ new \<and>
           map (\<lambda>p. c_embedding (snd p)) new =
             map ec_embedding (generateChunkEmbeddings generateEmbedding (p_chunks processed)) \<and>
           (\<forall>p\<in>set new. c_documentId (snd p) = currentDocumentId s)"
proof -
  define d where "d = currentDocumentId s"
  define cwe where "cwe = generateChunkEmbeddings generateEmbedding (p_chunks processed)"
  define upd where "upd = no_updates\<lparr>u_content := Some (p_content processed),
      u_chunkCount := Some (int (length cwe)), u_status := Some ''completed'',
      u_progress := Some 100\<rparr>"
  define s0 where "s0 = snd (createDocument (new_upload f userId) now s)"
  define s1 where "s1 = snd (updateDocumentProgress d 25 (Some ''processing'') s0)"
  define s2 where "s2 = snd (updateDocumentProgress d 50 None s1)"
  define s3 where "s3 = snd (updateDocumentProgress d 75 None s2)"
  define s4 where "s4 = save_chunks d cwe now s3"
  define s5 where "s5 = snd (updateDocument d upd s4)"
  have body: "process_upload processDocument generateEmbedding f d now s0 = (Inr (), s5)"
    using proc
    by (simp add: process_upload_def Let_def s1_def s2_def s3_def s4_def s5_def upd_def cwe_def)
  have final: "snd (upload_handler processDocument generateEmbedding (Some f) userId now s) = s5"
    using body createDocument_chunks [of "new_upload f userId" now s]
    by (simp add: upload_handler_def split_beta d_def s0_def)
  have ch3: "chunks s3 = chunks s" "currentChunkId s3 = currentChunkId s"
    by (simp_all add: s3_def s2_def s1_def s0_def updateDocumentProgress_chunks createDocument_chunks)
  with inv have "keys_below (chunks s3) (currentChunkId s3)" by simp
  from save_chunks_effect [OF this, of d cwe now] obtain new where new:
    "chunks s4 = chunks s3 @ new"
    "map (\<lambda>p. c_embedding (snd p)) new = map ec_embedding cwe"
    "\<forall>p\<in>set new. c_documentId (snd p) = d"
    "documents s4 = documents s3"
    unfolding s4_def by blast
  have "getDocument d s0 = Some (fst (createDocument (new_upload f userId) now s))"
    unfolding d_def s0_def by (rule getDocument_createDocument)
  then obtain doc3 where "getDocument d s3 = Some doc3"
    by (simp add: s3_def s2_def s1_def getDocument_updateDocumentProgress)
  with new(4) have "getDocument d s4 = Some doc3" by (simp add: getDocument_def)
  then have doc5: "getDocument d s5 = Some (spread doc3 upd)"
    unfolding s5_def by (rule getDocument_updateDocument)
  have fields: "d_status (spread doc3 upd) = ''completed''" "d_progress (spread doc3 upd) = 100"
    "d_chunkCount (spread doc3 upd) = int (length cwe)"
    by (simp_all add: spread_def upd_def nullish_def no_updates_def)
  have ch5: "chunks s5 = chunks s @ new"
    by (simp add: s5_def updateDocument_chunks new(1) ch3)
  show ?thesis
    unfolding final d_def [symmetric] cwe_def [symmetric]
    using doc5 fields ch5 new(2,3) by blast
qed

text \<open>
  C4. When the extractor succeeds with N chunks, the embedder raises for exactly one of them
  and returns a non-empty vector for the others, \<open>generateChunkEmbeddings\<close> returns all N
  chunks in order, the failed one (and only that one) with an empty embedding, and the upload
  ends with the document completed, at progress 100 and with chunk count N; the N chunks are
  appended to the chunk store under the new document's id, exactly one of them with an empty
  embedding. The hypothesis on the chunk counter holds in every store reached by store
  operations (\<open>store_inv_run\<close>).
\<close>

theorem upload_partial_embedding_failure:
  assumes "keys_below (chunks s) (currentChunkId s)"
    and "processDocument (f_buffer f) (f_mimetype f) (f_originalname f) = Inr processed"
    and "length (filter (\<lambda>ch. isl (generateEmbedding (tc_content ch))) (p_chunks processed)) = 1"
    and "\<forall>ch\<in>set (p_chunks processed). generateEmbedding (tc_content ch) \<noteq> Inr []"
    and "upload_handler processDocument generateEmbedding (Some f) userId now s = (res, s')"
  shows "map ec_content (generateChunkEmbeddings generateEmbedding (p_chunks processed)) =
           map tc_content (p_chunks processed) \<and>
         (\<forall>i<length (p_chunks processed).
            (ec_embedding (generateChunkEmbeddings generateEmbedding (p_chunks processed) ! i) = []) =
              isl (generateEmbedding (tc_content (p_chunks processed ! i)))) \<and>
         length (filter (\<lambda>ec. ec_embedding ec = [])
                   (generateChunkEmbeddings generateEmbedding (p_chunks processed))) = 1 \<and>
         (\<exists>doc. getDocument (currentDocumentId s) s' = Some doc \<and>
            d_status doc = ''completed'' \<and> d_progress doc = 100 \<and>
            d_chunkCount doc = int (length (p_chunks processed))) \<and>
         take (length (chunks s)) (chunks s') = chunks s \<and>
         length (chunks s') = length (chunks s) + length (p_chunks processed) \<and>
         (\<forall>p\<in>set (drop (length (chunks s)) (chunks s')).
            c_documentId (snd p) = currentDocumentId s) \<and>
         length (filter (\<lambda>p. c_embedding (snd p) = []) (drop (length (chunks s)) (chunks s'))) = 1"
proof -
  let ?chs = "p_chunks processed"
  let ?cwe = "generateChunkEmbeddings generateEmbedding ?chs"
  have len: "length ?cwe = length ?chs" by (simp add: generateChunkEmbeddings_map)
  have 1: "map ec_content ?cwe = map tc_content ?chs"
    by (simp add: generateChunkEmbeddings_map comp_def)
  have 2: "\<forall>i<length ?chs. (ec_embedding (?cwe ! i) = []) =
              isl (generateEmbedding (tc_content (?chs ! i)))"
  proof (intro allI impI)
    fix i assume i: "i < length ?chs"
    then have "generateEmbedding (tc_content (?chs ! i)) \<noteq> Inr []"
      using assms(4) by simp
    with i show "(ec_embedding (?cwe ! i) = []) = isl (generateEmbedding (tc_content (?chs ! i)))"
      by (cases "generateEmbedding (tc_content (?chs ! i))")
         (simp_all add: generateChunkEmbeddings_map)
  qed
  have 3: "length (filter (\<lambda>ec. ec_embedding ec = []) ?cwe) = 1"
    using assms(3) by (simp add: failed_embeddings [OF assms(4)])
  from assms(5) have s': "s' = snd (upload_handler processDocument generateEmbedding (Some f) userId now s)"
    by simp
  from upload_handler_success [where processDocument = processDocument and f = f
      and processed = processed and s = s and generateEmbedding = generateEmbedding
      and userId = userId and now = now, OF assms(1,2)]
  obtain doc new where r:
    "getDocument (currentDocumentId s) s' = Some doc"
    "d_status doc = ''completed''" "d_progress doc = 100"
    "d_chunkCount doc = int (length ?cwe)"
    "chunks s' = chunks s @ new"
    "map (\<lambda>p. c_embedding (snd p)) new = map ec_embedding ?cwe"
    "\<forall>p\<in>set new. c_documentId (snd p) = currentDocumentId s"
    unfolding s' by blast
  from r(1-4) len have 4: "\<exists>doc. getDocument (currentDocumentId s) s' = Some doc \<and>
            d_status doc = ''completed'' \<and> d_progress doc = 100 \<and>
            d_chunkCount doc = int (length ?chs)"
    by simp
  have lnew: "length new = length ?chs"
    using arg_cong [OF r(6), of length] len by simp
  have dr: "drop (length (chunks s)) (chunks s') = new" by (simp add: r(5))
  have 5: "take (length (chunks s)) (chunks s') = chunks s" by (simp add: r(5))
  have 6: "length (chunks s') = length (chunks s) + length ?chs" by (simp add: r(5) lnew)
  have "length (filter (\<lambda>p. c_embedding (snd p) = []) new) =
        length (filter (\<lambda>e. e = []) (map (\<lambda>p. c_embedding (snd p)) new))"
    by (simp add: filter_map comp_def)
  also have "\<dots> = length (filter (\<lambda>ec. ec_embedding ec = []) ?cwe)"
    unfolding r(6) by (simp add: filter_map comp_def)
  finally have 8: "length (filter (\<lambda>p. c_embedding (snd p) = []) new) = 1" using 3 by simp
  from 1 2 3 4 5 6 r(7) 8 show ?thesis unfolding dr by (intro conjI)
qed

theorem upload_partial_embedding_failure_witness:
  "keys_below (chunks example_store) (currentChunkId example_store) \<and>
   example_processor (f_buffer example_file) (f_mimetype example_file) (f_originalname example_file) =
     Inr \<lparr>p_content = ''abc def'',
          p_chunks = [\<lparr>tc_content = ''abc'', tc_metadata = None\<rparr>,
                      \<lparr>tc_content = ''def'', tc_metadata = None\<rparr>]\<rparr> \<and>
   map (\<lambda>ch. isl (example_embedder (tc_content ch)))
     [\<lparr>tc_content = ''abc'', tc_metadata = None\<rparr>, \<lparr>tc_content = ''def'', tc_metadata = None\<rparr>] =
     [False, True] \<and>
   map (\<lambda>ec. length (ec_embedding ec)) (generateChunkEmbeddings example_embedder
     [\<lparr>tc_content = ''abc'', tc_metadata = None\<rparr>, \<lparr>tc_content = ''def'', tc_metadata = None\<rparr>]) =
     [2, 0] \<and>
   (\<exists>doc. getDocument 5 (snd (upload_handler example_processor example_embedder
              (Some example_file) ''alice'' 60 example_store)) = Some doc \<and>
      d_status doc = ''completed'' \<and> d_progress doc = 100 \<and> d_chunkCount doc = 2) \<and>
   length (chunks (snd (upload_handler example_processor example_embedder
              (Some example_file) ''alice'' 60 example_store))) = 7 \<and>
   length (filter (\<lambda>p. c_embedding (snd p) = [])
     (drop 5 (chunks (snd (upload_handler example_processor example_embedder
              (Some example_file) ''alice'' 60 example_store))))) = 1"
proof -
  let ?chs = "[\<lparr>tc_content = ''abc'', tc_metadata = None\<rparr>, \<lparr>tc_content = ''def'', tc_metadata = None\<rparr>]"
  let ?p = "\<lparr>p_content = ''abc def'', p_chunks = ?chs\<rparr>"
  have h1: "keys_below (chunks example_store) (currentChunkId example_store)"
    by (simp add: example_store_value keys_below_def)
  have h2: "example_processor (f_buffer example_file) (f_mimetype example_file)
      (f_originalname example_file) = Inr ?p"
    by (simp add: example_processor_def example_file_def)
  have fails: "map (\<lambda>ch. isl (example_embedder (tc_content ch))) ?chs = [False, True]"
    by (simp add: example_embedder_def)
  have h3: "length (filter (\<lambda>ch. isl (example_embedder (tc_content ch))) (p_chunks ?p)) = 1"
    by (simp add: example_embedder_def)
  have h4: "\<forall>ch\<in>set (p_chunks ?p). example_embedder (tc_content ch) \<noteq> Inr []"
    by (simp add: example_embedder_def)
  note t = upload_partial_embedding_failure [where processDocument = example_processor
      and generateEmbedding = example_embedder and f = example_file and userId = "''alice''"
      and now = 60 and s = example_store and processed = ?p, OF h1 h2 h3 h4 surjective_pairing]
  have cur: "currentDocumentId example_store = 5" "length (chunks example_store) = 5"
    by (simp_all add: example_store_value)
  have emb: "map (\<lambda>ec. length (ec_embedding ec)) (generateChunkEmbeddings example_embedder ?chs) =
      [2, 0]"
    by (simp add: generateChunkEmbeddings_def example_embedder_def)
  have doc: "\<exists>doc. getDocument 5 (snd (upload_handler example_processor example_embedder
              (Some example_file) ''alice'' 60 example_store)) = Some doc \<and>
      d_status doc = ''completed'' \<and> d_progress doc = 100 \<and> d_chunkCount doc = 2"
    using t [THEN conjunct2, THEN conjunct2, THEN conjunct2, THEN conjunct1] cur by simp
  have len: "length (chunks (snd (upload_handler example_processor example_embedder
              (Some example_file) ''alice'' 60 example_store))) = 7"
    using t [THEN conjunct2, THEN conjunct2, THEN conjunct2, THEN conjunct2, THEN conjunct2,
        THEN conjunct1] cur by simp
  have one: "length (filter (\<lambda>p. c_embedding (snd p) = [])
     (drop 5 (chunks (snd (upload_handler example_processor example_embedder
              (Some example_file) ''alice'' 60 example_store))))) = 1"
    using t [THEN conjunct2, THEN conjunct2, THEN conjunct2, THEN conjunct2, THEN conjunct2,
        THEN conjunct2, THEN conjunct2] cur by simp
  from h1 h2 fails emb doc len one show ?thesis by (intro conjI)
qed

text \<open>
  C5. Whenever the body of the processing raises, the handler catches the error: the
  document is still in the store, with status \<open>error\<close>, progress 0 and its other fields as
  they were at the throw; the other documents and the chunks persisted at the throw are
  unchanged (nothing is rolled back). The only step of the body that can raise is the
  extractor, and then no chunk has been persisted: the chunk store is the one before the
  upload.
\<close>

theorem upload_fatal_failure:
  assumes "upload_handler processDocument generateEmbedding (Some f) userId now s = (res, s')"
    and "process_upload processDocument generateEmbedding f (currentDocumentId s) now
           (snd (createDocument (new_upload f userId) now s)) = (Inl e, s1)"
  shows "(\<exists>doc1. getDocument (currentDocumentId s) s1 = Some doc1 \<and>
            getDocument (currentDocumentId s) s' =
              Some (doc1\<lparr>d_progress := 0, d_status := ''error''\<rparr>)) \<and>
         (\<forall>j. j \<noteq> currentDocumentId s \<longrightarrow> getDocument j s' = getDocument j s1) \<and>
         chunks s' = chunks s1 \<and>
         processDocument (f_buffer f) (f_mimetype f) (f_originalname f) = Inl e \<and>
         chunks s' = chunks s"
proof -
  define d where "d = currentDocumentId s"
  define s0 where "s0 = snd (createDocument (new_upload f userId) now s)"
  from assms(2) have ext: "processDocument (f_buffer f) (f_mimetype f) (f_originalname f) = Inl e"
    and s1: "s1 = snd (updateDocumentProgress d 25 (Some ''processing'') s0)"
    by (simp_all add: process_upload_raises d_def s0_def)
  from assms have s': "s' = snd (updateDocumentProgress d 0 (Some ''error'') s1)"
    using createDocument_chunks [of "new_upload f userId" now s]
    by (simp add: upload_handler_def split_beta d_def)
  have "getDocument d s0 = Some (fst (createDocument (new_upload f userId) now s))"
    unfolding d_def s0_def by (rule getDocument_createDocument)
  then obtain doc1 where doc1: "getDocument d s1 = Some doc1"
    by (simp add: s1 getDocument_updateDocumentProgress)
  then have "getDocument d s' = Some (doc1\<lparr>d_progress := 0, d_status := ''error''\<rparr>)"
    by (simp add: s' getDocument_updateDocumentProgress truthy_def)
  with doc1 have 1: "\<exists>doc1. getDocument d s1 = Some doc1 \<and>
            getDocument d s' = Some (doc1\<lparr>d_progress := 0, d_status := ''error''\<rparr>)"
    by blast
  have 2: "\<forall>j. j \<noteq> d \<longrightarrow> getDocument j s' = getDocument j s1"
    by (simp add: s' getDocument_updateDocumentProgress_other)
  have 3: "chunks s' = chunks s1" by (simp add: s' updateDocumentProgress_chunks)
  have 4: "chunks s' = chunks s"
    by (simp add: s' s1 s0_def updateDocumentProgress_chunks createDocument_chunks)
  from 1 2 3 ext 4 show ?thesis unfolding d_def by (intro conjI)
qed

theorem upload_fatal_failure_witness:
  "fst (process_upload failing_processor example_embedder example_file 5 60
         (snd (createDocument (new_upload example_file ''alice'') 60 example_store))) =
     Inl (Error ''Failed to process document'') \<and>
   map_option d_status (getDocument 5 (snd (upload_handler failing_processor example_embedder
              (Some example_file) ''alice'' 60 example_store))) = Some ''error'' \<and>
   map_option d_progress (getDocument 5 (snd (upload_handler failing_processor example_embedder
              (Some example_file) ''alice'' 60 example_store))) = Some 0 \<and>
   chunks (snd (upload_handler failing_processor example_embedder
              (Some example_file) ''alice'' 60 example_store)) = chunks example_store"
proof -
  have cur: "currentDocumentId example_store = 5" by (simp add: example_store_value)
  have h: "process_upload failing_processor example_embedder example_file
             (currentDocumentId example_store) 60
             (snd (createDocument (new_upload example_file ''alice'') 60 example_store)) =
           (Inl (Error ''Failed to process document''),
            snd (process_upload failing_processor example_embedder example_file
                   (currentDocumentId example_store) 60
                   (snd (createDocument (new_upload example_file ''alice'') 60 example_store))))"
    by (simp add: process_upload_def failing_processor_def)
  note t = upload_fatal_failure [where processDocument = failing_processor
      and generateEmbedding = example_embedder and f = example_file and userId = "''alice''"
      and now = 60 and s = example_store, OF surjective_pairing h]
  have 1: "fst (process_upload failing_processor example_embedder example_file 5 60
         (snd (createDocument (new_upload example_file ''alice'') 60 example_store))) =
     Inl (Error ''Failed to process document'')"
    using arg_cong [OF h, of fst] unfolding cur by (simp only: fst_conv)
  from t [THEN conjunct1] obtain doc1 where
    "getDocument 5 (snd (upload_handler failing_processor example_embedder
              (Some example_file) ''alice'' 60 example_store)) =
       Some (doc1\<lparr>d_progress := 0, d_status := ''error''\<rparr>)"
    unfolding cur by blast
  then have 2: "map_option d_status (getDocument 5 (snd (upload_handler failing_processor
              example_embedder (Some example_file) ''alice'' 60 example_store))) = Some ''error''"
    and 3: "map_option d_progress (getDocument 5 (snd (upload_handler failing_processor
              example_embedder (Some example_file) ''alice'' 60 example_store))) = Some 0"
    by simp_all
  have 4: "chunks (snd (upload_handler failing_processor example_embedder
              (Some example_file) ''alice'' 60 example_store)) = chunks example_store"
    by (rule t [THEN conjunct2, THEN conjunct2, THEN conjunct2, THEN conjunct2])
  from 1 2 3 4 show ?thesis by (intro conjI)
qed

section \<open>Query answering\<close>

text \<open>
  C7. For a non-empty question whose embedding succeeds, when the generator fails (before
  or after some fragments), the response is the event stream of the fragments received
  followed by one error event and nothing else (no sources, no done event, no second run of
  the generator); the store afterwards is the store with the user's message appended, so no
  assistant message is persisted and the user's message stays. The hypothesis on the message
  counter holds in every store reached by store operations (\<open>store_inv_run\<close>).
\<close>

theorem chat_send_generator_failure:
  assumes "keys_below (chatMessages s) (currentMessageId s)"
    and "c \<noteq> []"
    and "generateEmbedding c = Inr q"
    and "generation streamChatResponse c userId
           (findSimilarChunks array_sort q (Some userId) (Some 5)
              (snd (createChatMessage (user_message c userId) now s)))
           (snd (createChatMessage (user_message c userId) now s)) = (fragments, Some e)"
    and "chat_send array_sort generateEmbedding streamChatResponse (Some c) userId now now' s = (res, s')"
  shows "res = EventStream (map ChunkEvent fragments @ [ErrorEvent ''Failed to generate response'']) \<and>
         chatMessages s' = chatMessages s @
           [(currentMessageId s,
             \<lparr>m_id = currentMessageId s, m_content = c, m_role = ''user'', m_sources = None,
              m_userId = Some userId, m_createdAt = Some now\<rparr>)] \<and>
         filter (\<lambda>msg. m_role msg = ''assistant'') (map snd (chatMessages s')) =
           filter (\<lambda>msg. m_role msg = ''assistant'') (map snd (chatMessages s)) \<and>
         documents s' = documents s \<and> chunks s' = chunks s"
proof -
  define s1 where "s1 = snd (createChatMessage (user_message c userId) now s)"
  from assms(2-5) have res: "res = EventStream (map ChunkEvent fragments @
      [ErrorEvent ''Failed to generate response''])" and s': "s' = s1"
    by (simp_all add: chat_send_def Let_def s1_def)
  have msgs: "chatMessages s1 = chatMessages s @
           [(currentMessageId s,
             \<lparr>m_id = currentMessageId s, m_content = c, m_role = ''user'', m_sources = None,
              m_userId = Some userId, m_createdAt = Some now\<rparr>)]"
    unfolding s1_def chatMessages_createChatMessage [OF assms(1)]
    by (simp add: createChatMessage_def user_message_def Let_def)
  have rest: "documents s1 = documents s" "chunks s1 = chunks s"
    by (simp_all add: s1_def createChatMessage_def Let_def)
  from res msgs rest show ?thesis unfolding s' by simp
qed

theorem chat_send_generator_failure_witness:
  "keys_below (chatMessages example_store) (currentMessageId example_store) \<and>
   ''why'' \<noteq> [] \<and> example_embedder ''why'' = Inr [Number 0, Number 1] \<and>
   fst (chat_send insertion_sort example_embedder failing_generator (Some ''why'') ''alice'' 60 61 example_store) =
     EventStream [ChunkEvent ''Hel'', ChunkEvent ''lo'', ErrorEvent ''Failed to generate response''] \<and>
   map (\<lambda>p. m_role (snd p))
     (chatMessages (snd (chat_send insertion_sort example_embedder failing_generator (Some ''why'') ''alice'' 60 61
        example_store))) = [''user'', ''user'', ''user'', ''user''] \<and>
   map fst
     (chatMessages (snd (chat_send insertion_sort example_embedder failing_generator (Some ''why'') ''alice'' 60 61
        example_store))) = [1, 2, 3, 4]"
proof -
  have h1: "keys_below (chatMessages example_store) (currentMessageId example_store)"
    by (simp add: example_store_value keys_below_def)
  have h2: "''why'' \<noteq> []" by simp
  have h3: "example_embedder ''why'' = Inr [Number 0, Number 1]" by (simp add: example_embedder_def)
  have h4: "generation failing_generator ''why'' ''alice''
           (findSimilarChunks insertion_sort [Number 0, Number 1] (Some ''alice'') (Some 5)
              (snd (createChatMessage (user_message ''why'' ''alice'') 60 example_store)))
           (snd (createChatMessage (user_message ''why'' ''alice'') 60 example_store)) =
         ([''Hel'', ''lo''], Some (Error ''Failed to stream response''))"
    by (simp add: generation_def failing_generator_def Let_def)
  note t = chat_send_generator_failure [where generateEmbedding = example_embedder
      and streamChatResponse = failing_generator and s = example_store and now' = 61,
      OF h1 h2 h3 h4 surjective_pairing]
  have 1: "fst (chat_send insertion_sort example_embedder failing_generator (Some ''why'') ''alice'' 60 61
      example_store) =
     EventStream [ChunkEvent ''Hel'', ChunkEvent ''lo'', ErrorEvent ''Failed to generate response'']"
    using t [THEN conjunct1] by simp
  have 2: "map (\<lambda>p. m_role (snd p))
     (chatMessages (snd (chat_send insertion_sort example_embedder failing_generator (Some ''why'') ''alice'' 60 61
        example_store))) = [''user'', ''user'', ''user'', ''user'']"
    and 3: "map fst
     (chatMessages (snd (chat_send insertion_sort example_embedder failing_generator (Some ''why'') ''alice'' 60 61
        example_store))) = [1, 2, 3, 4]"
    unfolding t [THEN conjunct2, THEN conjunct1] by (simp_all add: example_store_value)
  from h1 h2 h3 1 2 3 show ?thesis by (intro conjI)
qed

end
